theory Spec2Isabelle
  imports Complex_Main "HOL-Library.Multiset" "HOL-Library.Log_Nat" "HOL-Library.Product_Lexorder"
begin

section \<open>Data model of the unified scan (server.js)\<close>

text \<open>
  The server keeps quotes, historical bars, analysis results and analysed stocks as plain
  JavaScript objects. Each object shape is a record here. A property that the provider or
  the analysis service may leave out (or send as \<open>null\<close>) is an \<open>option\<close>.
  A number received from the provider or the analysis service is a finite binary64 value,
  given as the rational it denotes; the arithmetic of the server on such numbers rounds to
  binary64 (section on JavaScript numbers). A Symbol is the ticker string.
\<close>

type_synonym symbol = string

text \<open>A quote object as returned by \<open>yahooFinance.quote\<close>; only the properties the server reads.\<close>

record quote =
  quote_symbol :: symbol
  longName :: "string option"
  shortName :: "string option"
  regularMarketPrice :: "rat option"
  regularMarketChangePercent :: "rat option"
  regularMarketVolume :: "rat option"
  quote_fiftyTwoWeekLow :: "rat option"
  quote_fiftyTwoWeekHigh :: "rat option"
  quote_currency :: "string option"

text \<open>One daily bar of \<open>yahooFinance.historical\<close>.\<close>

record bar =
  bar_date :: string
  bar_open :: rat
  bar_high :: rat
  bar_low :: rat
  bar_close :: rat
  bar_volume :: rat
  bar_adjClose :: rat

text \<open>A row of the \<open>strategies\<close> table.\<close>

record strategy =
  strategy_id :: nat
  strategy_name :: string
  strategy_field :: string
  strategy_operator :: string
  strategy_value :: rat
  strategy_signal :: string

text \<open>The \<open>indicators\<close> object of an analysis result: the two entries the server reads.\<close>

record indicators =
  ind_rsi :: "rat option"
  avgVolume20 :: "rat option"

text \<open>An entry of \<open>customStrategyMatches\<close>.\<close>

record strategy_match =
  match_name :: string
  match_type :: string

text \<open>The body (\<open>response.data\<close>) the analysis service answers with.\<close>

record analysis_result =
  ar_indicators :: "indicators option"
  ar_recommendedSignal :: "string option"
  ar_signal :: "string option"
  ar_customStrategyMatches :: "strategy_match list option"

text \<open>The object built per symbol in \<open>analyzeAllStocks\<close> and broadcast to the clients.\<close>

record stock =
  symbol :: symbol
  name :: "string option"
  price :: "rat option"
  change :: "rat option"
  volume :: "rat option"
  fiftyTwoWeekLow :: "rat option"
  fiftyTwoWeekHigh :: "rat option"
  currency :: "string option"
  rsi :: "rat option"
  indicators :: "indicators option"
  signal :: "string option"
  recommendedSignal :: "string option"
  history :: "(string \<times> rat) list"
  customStrategyMatches :: "strategy_match list"

subsection \<open>JavaScript idioms\<close>

text \<open>\<open>x || d\<close> on a number that may be missing: \<open>null\<close>, \<open>undefined\<close> and \<open>0\<close> are falsy.\<close>

definition num_or :: "rat option \<Rightarrow> rat \<Rightarrow> rat" where
  "num_or x d = (case x of None \<Rightarrow> d | Some v \<Rightarrow> if v = 0 then d else v)"

text \<open>\<open>a || b\<close> on strings that may be missing: the empty string is falsy.\<close>

definition str_or :: "string option \<Rightarrow> string option \<Rightarrow> string option" where
  "str_or a b = (case a of None \<Rightarrow> b | Some s \<Rightarrow> if s = [] then b else Some s)"

text \<open>
  \<open>Array.prototype.sort\<close> with a comparator \<open>(a, b) => key(a) - key(b)\<close>. The sort is
  stable (ECMAScript 2019); insertion sort by key is the stable reference.
\<close>

definition sort_ascending :: "('a \<Rightarrow> rat) \<Rightarrow> 'a list \<Rightarrow> 'a list" where
  "sort_ascending key xs = sort_key key xs"

text \<open>The comparator \<open>(a, b) => key(b) - key(a)\<close>.\<close>

definition sort_descending :: "('a \<Rightarrow> rat) \<Rightarrow> 'a list \<Rightarrow> 'a list" where
  "sort_descending key xs = sort_key (\<lambda>x. - key x) xs"

text \<open>\<open>xs.slice(i, j)\<close> for \<open>0 \<le> i \<le> j\<close>.\<close>

definition slice :: "'a list \<Rightarrow> nat \<Rightarrow> nat \<Rightarrow> 'a list" where
  "slice xs i j = take (j - i) (drop i xs)"

text \<open>\<open>new Map(entries)\<close>: a later entry replaces an earlier one with the same key.\<close>

definition new_Map :: "('k \<times> 'v) list \<Rightarrow> ('k \<rightharpoonup> 'v)" where
  "new_Map entries = map_of (rev entries)"

section \<open>Configuration (config.js)\<close>

definition defaultSymbols :: "symbol list" where
  "defaultSymbols = [''^NSEI'', ''RELIANCE.NS'']"

definition fnoSymbols :: "symbol set" where
  "fnoSymbols = {''RELIANCE.NS''}"

section \<open>JavaScript numbers\<close>

text \<open>
  A JavaScript number is an IEEE 754 binary64 value: a finite value, one of the two
  infinities, or NaN. A finite value is given as the rational it denotes. The two zeros
  are not told apart: the server never divides by a computed result, and \<open>-0 > 0\<close>,
  \<open>!(-0)\<close> and \<open>-0 === 0\<close> answer as for \<open>0\<close>.
\<close>

datatype js_number = Finite rat | PosInfinity | NegInfinity | NaN

text \<open>The power of two with an integer exponent.\<close>

definition pow2 :: "int \<Rightarrow> rat" where
  "pow2 k = (if 0 \<le> k then 2 ^ nat k else 1 / 2 ^ nat (- k))"

text \<open>Rounding to the nearest integer, a tie going to the even one.\<close>

definition round_half_even :: "rat \<Rightarrow> int" where
  "round_half_even r =
     (let f = \<lfloor>r\<rfloor>; d = r - of_int f
      in if d < 1 / 2 then f else if 1 / 2 < d then f + 1 else if even f then f else f + 1)"

text \<open>
  For \<open>x > 0\<close>, the exponent \<open>e\<close> with \<open>2^e \<le> x < 2^(e+1)\<close>, found from the bit lengths of
  numerator and denominator.
\<close>

definition floor_log2 :: "rat \<Rightarrow> int" where
  "floor_log2 x =
     (case quotient_of x of
        (a, b) \<Rightarrow> (let k = bitlen a - bitlen b in if pow2 k \<le> x then k else k - 1))"

text \<open>
  Rounding of an exact result to binary64, to nearest with ties to even: 53 significant
  bits, the spacing of subnormal numbers (\<open>2^-1074\<close>) below \<open>2^-1022\<close>, and infinity when
  the rounded magnitude reaches \<open>2^1024\<close>.
\<close>

definition round_binary64 :: "rat \<Rightarrow> js_number" where
  "round_binary64 x =
     (if x = 0 then Finite 0
      else
        (let e = max (floor_log2 \<bar>x\<bar>) (- 1022);
             ulp = pow2 (e - 52);
             y = of_int (round_half_even (\<bar>x\<bar> / ulp)) * ulp
         in if pow2 1024 \<le> y then (if 0 < x then PosInfinity else NegInfinity)
            else Finite (if 0 < x then y else - y)))"

text \<open>\<open>x / y\<close> for two finite numbers; a zero divisor is read as \<open>+0\<close>.\<close>

definition js_divide :: "rat \<Rightarrow> rat \<Rightarrow> js_number" where
  "js_divide x y =
     (if y = 0 then (if x = 0 then NaN else if 0 < x then PosInfinity else NegInfinity)
      else round_binary64 (x / y))"

text \<open>\<open>a * b\<close>.\<close>

fun js_multiply :: "js_number \<Rightarrow> js_number \<Rightarrow> js_number" where
  "js_multiply NaN b = NaN"
| "js_multiply a NaN = NaN"
| "js_multiply (Finite x) (Finite y) = round_binary64 (x * y)"
| "js_multiply (Finite x) PosInfinity =
     (if x = 0 then NaN else if 0 < x then PosInfinity else NegInfinity)"
| "js_multiply (Finite x) NegInfinity =
     (if x = 0 then NaN else if 0 < x then NegInfinity else PosInfinity)"
| "js_multiply PosInfinity (Finite y) =
     (if y = 0 then NaN else if 0 < y then PosInfinity else NegInfinity)"
| "js_multiply NegInfinity (Finite y) =
     (if y = 0 then NaN else if 0 < y then NegInfinity else PosInfinity)"
| "js_multiply PosInfinity PosInfinity = PosInfinity"
| "js_multiply PosInfinity NegInfinity = NegInfinity"
| "js_multiply NegInfinity PosInfinity = NegInfinity"
| "js_multiply NegInfinity NegInfinity = PosInfinity"

text \<open>\<open>a + b\<close>.\<close>

fun js_add :: "js_number \<Rightarrow> js_number \<Rightarrow> js_number" where
  "js_add NaN b = NaN"
| "js_add a NaN = NaN"
| "js_add (Finite x) (Finite y) = round_binary64 (x + y)"
| "js_add (Finite x) PosInfinity = PosInfinity"
| "js_add (Finite x) NegInfinity = NegInfinity"
| "js_add PosInfinity (Finite y) = PosInfinity"
| "js_add NegInfinity (Finite y) = NegInfinity"
| "js_add PosInfinity PosInfinity = PosInfinity"
| "js_add NegInfinity NegInfinity = NegInfinity"
| "js_add PosInfinity NegInfinity = NaN"
| "js_add NegInfinity PosInfinity = NaN"

text \<open>\<open>a > 0\<close>.\<close>

fun js_positive :: "js_number \<Rightarrow> bool" where
  "js_positive (Finite x) = (0 < x)"
| "js_positive PosInfinity = True"
| "js_positive NegInfinity = False"
| "js_positive NaN = False"

text \<open>\<open>a <= b\<close>.\<close>

fun js_less_eq :: "js_number \<Rightarrow> js_number \<Rightarrow> bool" where
  "js_less_eq NaN b = False"
| "js_less_eq a NaN = False"
| "js_less_eq (Finite x) (Finite y) = (x \<le> y)"
| "js_less_eq a PosInfinity = True"
| "js_less_eq NegInfinity b = True"
| "js_less_eq PosInfinity b = False"
| "js_less_eq a NegInfinity = False"

text \<open>
  \<open>Array.prototype.sort\<close> with the comparator \<open>(a, b) => key(b) - key(a)\<close> on keys that are
  numbers other than NaN. The difference of two finite binary64 values has the sign of
  the exact difference, and \<open>Infinity - Infinity\<close> is NaN, which \<open>sort\<close> reads as 0: equal
  keys and two infinite keys of the same sign tie and keep their order, the sort being
  stable. The position of a key in the descending order is given as a pair compared
  lexicographically. A NaN key is given the last position; the server sorts no NaN.
\<close>

fun descending_position :: "js_number \<Rightarrow> int \<times> rat" where
  "descending_position PosInfinity = (0, 0)"
| "descending_position (Finite x) = (1, - x)"
| "descending_position NegInfinity = (2, 0)"
| "descending_position NaN = (3, 0)"

definition sort_descending_number :: "('a \<Rightarrow> js_number) \<Rightarrow> 'a list \<Rightarrow> 'a list" where
  "sort_descending_number key xs = sort_key (\<lambda>x. descending_position (key x)) xs"

section \<open>Fast volume accumulators\<close>

text \<open>\<open>{ ...stock, score }\<close>: a stock together with its momentum score.\<close>

record scored_stock =
  base :: stock
  score :: js_number

text \<open>\<open>!x\<close> on a number that may be missing.\<close>

definition falsy :: "rat option \<Rightarrow> bool" where
  "falsy x = (case x of None \<Rightarrow> True | Some v \<Rightarrow> v = 0)"

text \<open>
  The body of the \<open>map\<close> callback in \<open>getFastVolumeAccumulators\<close>. The literals \<open>0.7\<close> and
  \<open>0.3\<close> are the binary64 values nearest to 7/10 and 3/10. The last branch of the \<open>case\<close>
  is never taken: a missing volume or average is falsy.
\<close>

definition momentum_score :: "stock \<Rightarrow> js_number" where
  "momentum_score s =
     (let priceChange = num_or (change s) 0;
          volume = volume s;
          avgVolume = (case indicators s of None \<Rightarrow> None | Some ind \<Rightarrow> avgVolume20 ind)
      in if priceChange \<le> 0 \<or> falsy volume \<or> falsy avgVolume \<or> avgVolume = Some 0
         then Finite (- 1)
         else (case (volume, avgVolume) of
                 (Some v, Some a) \<Rightarrow>
                   (let volumeRatio = js_divide v a
                    in js_add (js_multiply volumeRatio (round_binary64 (7 / 10)))
                         (js_multiply (Finite priceChange) (round_binary64 (3 / 10))))
               | _ \<Rightarrow> Finite (- 1)))"

definition getFastVolumeAccumulators :: "stock list \<Rightarrow> symbol set \<Rightarrow> scored_stock list" where
  "getFastVolumeAccumulators allStocks fno =
     (let fnoStocks = filter (\<lambda>s. symbol s \<in> fno) allStocks;
          scoredStocks =
            sort_descending_number score
              (filter (\<lambda>x. js_positive (score x))
                 (map (\<lambda>s. \<lparr>base = s, score = momentum_score s\<rparr>) fnoStocks))
      in slice scoredStocks 0 5)"

section \<open>Top recommendations\<close>

text \<open>The two pipelines of \<open>fetchAndEmitStockUpdates\<close> that build \<open>topBuys\<close> and \<open>topSells\<close>.\<close>

definition topBuys :: "stock list \<Rightarrow> stock list" where
  "topBuys mappedData =
     slice (sort_ascending (\<lambda>s. num_or (rsi s) 100)
              (filter (\<lambda>s. recommendedSignal s = Some ''STRONG BUY'') mappedData)) 0 5"

definition topSells :: "stock list \<Rightarrow> stock list" where
  "topSells mappedData =
     slice (sort_descending (\<lambda>s. num_or (rsi s) 0)
              (filter (\<lambda>s. recommendedSignal s = Some ''STRONG SELL'') mappedData)) 0 5"

section \<open>Promises and timeouts\<close>

text \<open>
  A promise is modelled by when and how it settles: \<open>Settles t r\<close> settles \<open>t\<close> milliseconds
  after it was created, rejected with an error message (\<open>Inl\<close>) or fulfilled with a value
  (\<open>Inr\<close>); \<open>Never\<close> stays pending for ever. An \<open>Error\<close> object is modelled by its message.
\<close>

datatype 'a promise = Settles nat "string + 'a" | Never

text \<open>
  \<open>promiseWithTimeout\<close> races the promise against a timer of \<open>ms\<close> milliseconds; the result
  is what \<open>await\<close> on the race yields. A promise that settles at the very millisecond the
  timer fires is taken to lose the race.
\<close>

definition promiseWithTimeout :: "'a promise \<Rightarrow> nat \<Rightarrow> string \<Rightarrow> string + 'a" where
  "promiseWithTimeout promise ms timeoutError =
     (case promise of
        Settles t r \<Rightarrow> if t < ms then r else Inl timeoutError
      | Never \<Rightarrow> Inl timeoutError)"

text \<open>\<open>Promise.all\<close> of two: the earliest rejection wins, otherwise both must be fulfilled.\<close>

fun all_cons :: "'a promise \<Rightarrow> 'a list promise \<Rightarrow> 'a list promise" where
  "all_cons (Settles t (Inl e)) (Settles t' (Inl e')) =
     (if t' < t then Settles t' (Inl e') else Settles t (Inl e))"
| "all_cons (Settles t (Inl e)) _ = Settles t (Inl e)"
| "all_cons _ (Settles t' (Inl e')) = Settles t' (Inl e')"
| "all_cons (Settles t (Inr v)) (Settles t' (Inr vs)) = Settles (max t t') (Inr (v # vs))"
| "all_cons _ _ = Never"

fun Promise_all :: "'a promise list \<Rightarrow> 'a list promise" where
  "Promise_all [] = Settles 0 (Inr [])"
| "Promise_all (p # ps) = all_cons p (Promise_all ps)"

section \<open>The symbol universe\<close>

text \<open>
  A JavaScript \<open>Set\<close> is the list of its members in insertion order, without duplicates;
  \<open>Array.from\<close> returns that list.
\<close>

definition Set_add :: "'a list \<Rightarrow> 'a \<Rightarrow> 'a list" where
  "Set_add s x = (if x \<in> set s then s else s @ [x])"

definition new_Set :: "'a list \<Rightarrow> 'a list" where
  "new_Set xs = foldl Set_add [] xs"

text \<open>
  \<open>getCombinedTrackedSymbols\<close>. The first argument is the configured default list, the
  second the outcome of \<open>SELECT DISTINCT symbol FROM watchlists\<close> (\<open>Inl\<close>: the query threw,
  and the defaults alone are used).
\<close>

definition getCombinedTrackedSymbols :: "symbol list \<Rightarrow> string + symbol list \<Rightarrow> symbol list" where
  "getCombinedTrackedSymbols defaults dbSymbols =
     (let allTrackedSymbols = new_Set defaults
      in case dbSymbols of
           Inr rows \<Rightarrow> foldl Set_add allTrackedSymbols rows
         | Inl error \<Rightarrow> allTrackedSymbols)"

section \<open>Step 1: quotes\<close>

text \<open>\<open>yahooFinance.quote\<close> resolves to an array of quotes (entries may be missing) or to one quote.\<close>

datatype quote_result = QuoteArray "quote option list" | QuoteSingle "quote option"

definition fetchQuotes ::
  "(symbol list \<Rightarrow> quote_result promise) \<Rightarrow> symbol list \<Rightarrow> string + (symbol \<rightharpoonup> quote)" where
  "fetchQuotes yahoo_quote symbolsToFetch =
     (case promiseWithTimeout (yahoo_quote symbolsToFetch) 20000
             ''Yahoo Finance quote API call timed out'' of
        Inr quoteResults \<Rightarrow>
          (let quotes = (case quoteResults of QuoteArray qs \<Rightarrow> qs | QuoteSingle q \<Rightarrow> [q]);
               quotesMap = new_Map (map (\<lambda>q. (quote_symbol q, q)) (List.map_filter id quotes))
           in Inr quotesMap)
      | Inl error \<Rightarrow> Inl error)"

section \<open>Step 2: historical data\<close>

text \<open>The request body posted to the analysis service.\<close>

record payload_bar =
  pb_date :: string
  pb_open :: rat
  pb_high :: rat
  pb_low :: rat
  pb_close :: rat
  pb_volume :: rat

record payload =
  payload_quote :: quote
  payload_history :: "payload_bar list"
  payload_strategies :: "strategy list"

text \<open>
  What the stages do to the outside world: a historical request for a symbol (with the
  attempt number), a \<open>setTimeout\<close> wait between attempts, a call of
  \<open>pythonApiBreaker.fire\<close>. A stage is a schedule of batches (the chunk, and what its items
  did) and of pauses between them.
\<close>

datatype call = HistoricalCall symbol nat | BackoffWait nat | BreakerFire payload

datatype step = Batch "symbol list" "call list" | Pause nat

text \<open>
  One call of \<open>yahooFinance.historical\<close>: it resolves after some milliseconds (possibly to
  \<open>undefined\<close>), rejects after some milliseconds, or never settles.
\<close>

datatype attempt = Resolves nat "bar list option" | Rejects nat string | Hangs

text \<open>
  The retry loop \<open>for (attempt = 1; attempt <= maxRetries; attempt++)\<close> of the per-symbol
  callback. \<open>elapsed\<close> is the time since the callback started. The result is the list of
  calls made and the promise of the callback, which is never rejected.
\<close>

function historicalAttempts ::
  "(nat \<Rightarrow> attempt) \<Rightarrow> symbol \<Rightarrow> nat \<Rightarrow> nat \<Rightarrow> nat \<Rightarrow> call list \<times> bar list option promise" where
  "historicalAttempts historical symb maxRetries attempt elapsed =
     (if attempt \<le> maxRetries then
        (case historical attempt of
           Resolves d hist \<Rightarrow> ([HistoricalCall symb attempt], Settles (elapsed + d) (Inr hist))
         | Hangs \<Rightarrow> ([HistoricalCall symb attempt], Never)
         | Rejects d err \<Rightarrow>
             (if attempt < maxRetries then
                (case historicalAttempts historical symb maxRetries (attempt + 1)
                        (elapsed + d + 500 * attempt) of
                   (calls, p) \<Rightarrow>
                     (HistoricalCall symb attempt # BackoffWait (500 * attempt) # calls, p))
              else
                (case historicalAttempts historical symb maxRetries (attempt + 1) (elapsed + d) of
                   (calls, p) \<Rightarrow> (HistoricalCall symb attempt # calls, p))))
      else ([], Settles elapsed (Inr (Some []))))"
  by pat_completeness auto
termination
  by (relation "measure (\<lambda>(historical, symb, maxRetries, attempt, elapsed). Suc maxRetries - attempt)")
     auto

declare historicalAttempts.simps [simp del]

text \<open>The per-symbol callback of \<open>chunk.map\<close>: \<open>maxRetries = 2\<close>, attempts counted from 1.\<close>

definition fetchSymbolHistory ::
  "(symbol \<Rightarrow> nat \<Rightarrow> attempt) \<Rightarrow> symbol \<Rightarrow> call list \<times> bar list option promise" where
  "fetchSymbolHistory yahoo_historical symb = historicalAttempts (yahoo_historical symb) symb 2 1 0"

text \<open>
  The body of the chunk loop of \<open>fetchAllHistoricalData\<close> for one chunk: the callbacks of
  all its symbols are started together and awaited under a 20-second timeout; when the
  timeout wins, every symbol of the chunk gets an empty array. The result is the calls
  made and \<open>chunkResults\<close>.
\<close>

definition historicalChunk ::
  "(symbol \<Rightarrow> nat \<Rightarrow> attempt) \<Rightarrow> symbol list \<Rightarrow> call list \<times> bar list option list" where
  "historicalChunk yahoo_historical chunk =
     (let historicalDataPromises = map (fetchSymbolHistory yahoo_historical) chunk;
          chunkResults =
            (case promiseWithTimeout (Promise_all (map snd historicalDataPromises)) 20000
                    (''Yahoo Finance historical data API call timed out for chunk starting with ''
                       @ (case chunk of [] \<Rightarrow> ''undefined'' | c # _ \<Rightarrow> c)) of
               Inr results \<Rightarrow> results
             | Inl error \<Rightarrow> replicate (length chunk) (Some []))
      in (concat (map fst historicalDataPromises), chunkResults))"

text \<open>The loop \<open>for (i = 0; i < symbolsToFetch.length; i += CHUNK_SIZE)\<close> with \<open>CHUNK_SIZE = 25\<close>.\<close>

function historicalChunks ::
  "(symbol \<Rightarrow> nat \<Rightarrow> attempt) \<Rightarrow> symbol list \<Rightarrow> nat \<Rightarrow> step list \<times> bar list option list" where
  "historicalChunks yahoo_historical symbolsToFetch i =
     (if i < length symbolsToFetch then
        (let chunk = slice symbolsToFetch i (i + 25);
             pause = (if i + 25 < length symbolsToFetch then [Pause 250] else [])
         in case historicalChunk yahoo_historical chunk of
              (calls, chunkResults) \<Rightarrow>
                (case historicalChunks yahoo_historical symbolsToFetch (i + 25) of
                   (steps, allHistoricalData) \<Rightarrow>
                     (Batch chunk calls # pause @ steps, chunkResults @ allHistoricalData)))
      else ([], []))"
  by pat_completeness auto
termination
  by (relation "measure (\<lambda>(yahoo_historical, symbolsToFetch, i). length symbolsToFetch - i)") auto

declare historicalChunks.simps [simp del]

text \<open>\<open>allHistoricalData[i] || []\<close>: out of range and \<open>undefined\<close> both give the empty array.\<close>

definition history_at :: "bar list option list \<Rightarrow> nat \<Rightarrow> bar list" where
  "history_at allHistoricalData i =
     (if i < length allHistoricalData
      then (case allHistoricalData ! i of None \<Rightarrow> [] | Some h \<Rightarrow> h)
      else [])"

definition fetchAllHistoricalData ::
  "(symbol \<Rightarrow> nat \<Rightarrow> attempt) \<Rightarrow> symbol list \<Rightarrow> step list \<times> (symbol \<rightharpoonup> bar list)" where
  "fetchAllHistoricalData yahoo_historical symbolsToFetch =
     (case historicalChunks yahoo_historical symbolsToFetch 0 of
        (steps, allHistoricalData) \<Rightarrow>
          (let historicalDataMap =
                 new_Map (map (\<lambda>i. (symbolsToFetch ! i, history_at allHistoricalData i))
                            [0 ..< length symbolsToFetch])
           in (steps, historicalDataMap)))"

section \<open>Step 3: analysis\<close>

text \<open>
  \<open>pythonApiBreaker.fire\<close> is the circuit breaker of the opossum package around the POST to
  the analysis service. Its code is not part of the server; the server only sees a call
  that is fulfilled with a response or rejected with an error, \<open>EOPENBREAKER\<close> when the
  circuit is open. The breaker is a parameter \<open>fire\<close> of the model: it gives, for each
  payload, the body of the response (\<open>response.data\<close>, possibly empty) or the error. Within
  one cycle every symbol is analysed at most once, so a function of the payload loses
  nothing.
\<close>

datatype breaker_error = EOPENBREAKER | ETIMEDOUT | RequestFailed string

definition breakerOptions_timeout :: nat where
  "breakerOptions_timeout = 15000"

definition breakerOptions_errorThresholdPercentage :: nat where
  "breakerOptions_errorThresholdPercentage = 50"

definition breakerOptions_resetTimeout :: nat where
  "breakerOptions_resetTimeout = 30000"

definition analyzeWithPythonService ::
  "(payload \<Rightarrow> breaker_error + analysis_result option) \<Rightarrow> quote \<Rightarrow> bar list \<Rightarrow> strategy list
     \<Rightarrow> call list \<times> analysis_result option" where
  "analyzeWithPythonService fire stockQuote hist strategies =
     (let payload =
            \<lparr>payload_quote = stockQuote,
             payload_history =
               map (\<lambda>h. \<lparr>pb_date = bar_date h, pb_open = bar_open h, pb_high = bar_high h,
                          pb_low = bar_low h, pb_close = bar_close h, pb_volume = bar_volume h\<rparr>) hist,
             payload_strategies = strategies\<rparr>
      in case fire payload of
           Inr response_data \<Rightarrow> ([BreakerFire payload], response_data)
         | Inl error \<Rightarrow> ([BreakerFire payload], None))"

text \<open>The object literal the per-symbol callback of \<open>analyzeAllStocks\<close> returns.\<close>

definition analyzedStock :: "quote \<Rightarrow> bar list \<Rightarrow> analysis_result \<Rightarrow> stock" where
  "analyzedStock stockQuote hist analysisResult =
     \<lparr>symbol = quote_symbol stockQuote,
      name = str_or (longName stockQuote) (shortName stockQuote),
      price = regularMarketPrice stockQuote,
      change = regularMarketChangePercent stockQuote,
      volume = regularMarketVolume stockQuote,
      fiftyTwoWeekLow = quote_fiftyTwoWeekLow stockQuote,
      fiftyTwoWeekHigh = quote_fiftyTwoWeekHigh stockQuote,
      currency = quote_currency stockQuote,
      rsi = (case ar_indicators analysisResult of None \<Rightarrow> None | Some ind \<Rightarrow> ind_rsi ind),
      indicators = ar_indicators analysisResult,
      signal = ar_signal analysisResult,
      recommendedSignal = ar_recommendedSignal analysisResult,
      history = map (\<lambda>h. (bar_date h, bar_close h)) (drop (length hist - 30) hist),
      customStrategyMatches =
        (case ar_customStrategyMatches analysisResult of None \<Rightarrow> [] | Some ms \<Rightarrow> ms)\<rparr>"

text \<open>
  The per-symbol callback of \<open>chunk.map\<close> in \<open>analyzeAllStocks\<close>: the calls it makes and
  the stock it returns, or \<open>null\<close>.
\<close>

definition analyzeSymbol ::
  "(payload \<Rightarrow> breaker_error + analysis_result option) \<Rightarrow> (symbol \<rightharpoonup> quote)
     \<Rightarrow> (symbol \<rightharpoonup> bar list) \<Rightarrow> strategy list \<Rightarrow> symbol \<Rightarrow> call list \<times> stock option" where
  "analyzeSymbol fire quotesMap historicalDataMap strategies symb =
     (case quotesMap symb of
        None \<Rightarrow> ([], None)
      | Some stockQuote \<Rightarrow>
          (case historicalDataMap symb of
             None \<Rightarrow> ([], None)
           | Some hist \<Rightarrow>
               if length hist = 0 then ([], None)
               else
                 (case analyzeWithPythonService fire stockQuote hist strategies of
                    (calls, None) \<Rightarrow> (calls, None)
                  | (calls, Some analysisResult) \<Rightarrow>
                      (calls, Some (analyzedStock stockQuote hist analysisResult)))))"

text \<open>
  The body of the chunk loop of \<open>analyzeAllStocks\<close> for one chunk: the callbacks of all its
  symbols are awaited together (there is no timeout here) and the \<open>null\<close> results are
  filtered out.
\<close>

definition analysisChunk ::
  "(payload \<Rightarrow> breaker_error + analysis_result option) \<Rightarrow> (symbol \<rightharpoonup> quote)
     \<Rightarrow> (symbol \<rightharpoonup> bar list) \<Rightarrow> strategy list \<Rightarrow> symbol list \<Rightarrow> call list \<times> stock list" where
  "analysisChunk fire quotesMap historicalDataMap strategies chunk =
     (let analysisPromises = map (analyzeSymbol fire quotesMap historicalDataMap strategies) chunk;
          chunkResults = map snd analysisPromises
      in (concat (map fst analysisPromises), List.map_filter id chunkResults))"

text \<open>The loop \<open>for (i = 0; i < symbolsToFetch.length; i += CHUNK_SIZE)\<close> with \<open>CHUNK_SIZE = 10\<close>.\<close>

function analysisChunks ::
  "(payload \<Rightarrow> breaker_error + analysis_result option) \<Rightarrow> (symbol \<rightharpoonup> quote)
     \<Rightarrow> (symbol \<rightharpoonup> bar list) \<Rightarrow> strategy list \<Rightarrow> symbol list \<Rightarrow> nat \<Rightarrow> step list \<times> stock list" where
  "analysisChunks fire quotesMap historicalDataMap strategies symbolsToFetch i =
     (if i < length symbolsToFetch then
        (let chunk = slice symbolsToFetch i (i + 10);
             pause = (if i + 10 < length symbolsToFetch then [Pause 250] else [])
         in case analysisChunk fire quotesMap historicalDataMap strategies chunk of
              (calls, analyzed) \<Rightarrow>
                (case analysisChunks fire quotesMap historicalDataMap strategies symbolsToFetch
                        (i + 10) of
                   (steps, allAnalyzedData) \<Rightarrow>
                     (Batch chunk calls # pause @ steps, analyzed @ allAnalyzedData)))
      else ([], []))"
  by pat_completeness auto
termination
  by (relation "measure (\<lambda>(fire, quotesMap, historicalDataMap, strategies, symbolsToFetch, i).
                   length symbolsToFetch - i)") auto

declare analysisChunks.simps [simp del]

definition analyzeAllStocks ::
  "(payload \<Rightarrow> breaker_error + analysis_result option) \<Rightarrow> symbol list \<Rightarrow> (symbol \<rightharpoonup> quote)
     \<Rightarrow> (symbol \<rightharpoonup> bar list) \<Rightarrow> strategy list \<Rightarrow> step list \<times> stock list" where
  "analyzeAllStocks fire symbolsToFetch quotesMap historicalDataMap strategies =
     analysisChunks fire quotesMap historicalDataMap strategies symbolsToFetch 0"

section \<open>Aggregation and broadcast\<close>

text \<open>
  \<open>customStrategyResults\<close> is a plain object keyed by strategy name. Its own properties
  are kept as an association list in the order JavaScript enumerates them: the keys
  that are array indices first, in ascending numeric order, then the other keys in the
  order they were created. A name that is not an own property is looked up in
  \<open>Object.prototype\<close>.
\<close>

type_synonym groups = "(string \<times> string \<times> stock list) list"

text \<open>The property names of \<open>Object.prototype\<close>; each of them holds a truthy value.\<close>

definition Object_prototype_names :: "string list" where
  "Object_prototype_names =
     [''constructor'', ''__defineGetter__'', ''__defineSetter__'', ''hasOwnProperty'',
      ''__lookupGetter__'', ''__lookupSetter__'', ''isPrototypeOf'', ''propertyIsEnumerable'',
      ''toString'', ''valueOf'', ''__proto__'', ''toLocaleString'']"

text \<open>
  A key is an array index when it is the canonical decimal form of an integer between 0
  and \<open>2^32 - 2\<close>.
\<close>

definition array_index :: "string \<Rightarrow> nat option" where
  "array_index key =
     (case key of
        [] \<Rightarrow> None
      | c # cs \<Rightarrow>
          if list_all (\<lambda>d. d \<in> set ''0123456789'') key \<and> (c \<noteq> CHR ''0'' \<or> cs = [])
          then (let n = foldl (\<lambda>n d. 10 * n + (of_char d - 48)) 0 key
                in if n \<le> 4294967294 then Some n else None)
          else None)"

text \<open>Creating an own property that the object does not have yet.\<close>

definition define_property :: "(string \<times> 'v) list \<Rightarrow> string \<Rightarrow> 'v \<Rightarrow> (string \<times> 'v) list" where
  "define_property obj key v =
     (case array_index key of
        None \<Rightarrow> obj @ [(key, v)]
      | Some n \<Rightarrow>
          (let before = (\<lambda>(k, w). case array_index k of Some m \<Rightarrow> m < n | None \<Rightarrow> False)
           in takeWhile before obj @ [(key, v)] @ dropWhile before obj))"

text \<open>
  The body of the inner \<open>forEach\<close>. When the name is an own property the stock is pushed
  to its group. When it is a property of \<open>Object.prototype\<close> the test
  \<open>!customStrategyResults[match.name]\<close> is false, no group is created, \<open>.stocks\<close> is
  \<open>undefined\<close> and \<open>.push\<close> throws a TypeError. Otherwise the group is created with the
  type of this match, and the stock is pushed.
\<close>

definition add_match :: "stock \<Rightarrow> groups \<Rightarrow> strategy_match \<Rightarrow> string + groups" where
  "add_match stockData results m =
     (case map_of results (match_name m) of
        Some (ty, stocks) \<Rightarrow>
          Inr (map (\<lambda>(n, g). if n = match_name m then (n, (ty, stocks @ [stockData])) else (n, g))
                 results)
      | None \<Rightarrow>
          if match_name m \<in> set Object_prototype_names
          then Inl ''Cannot read properties of undefined (reading 'push')''
          else Inr (define_property results (match_name m) (match_type m, [stockData])))"

text \<open>The inner and the outer \<open>forEach\<close>: an exception ends both.\<close>

fun add_matches :: "stock \<Rightarrow> groups \<Rightarrow> strategy_match list \<Rightarrow> string + groups" where
  "add_matches stockData results [] = Inr results"
| "add_matches stockData results (m # ms) =
     (case add_match stockData results m of
        Inl message \<Rightarrow> Inl message
      | Inr results' \<Rightarrow> add_matches stockData results' ms)"

fun collect_matches :: "groups \<Rightarrow> stock list \<Rightarrow> string + groups" where
  "collect_matches results [] = Inr results"
| "collect_matches results (stockData # rest) =
     (case add_matches stockData results (customStrategyMatches stockData) of
        Inl message \<Rightarrow> Inl message
      | Inr results' \<Rightarrow> collect_matches results' rest)"

text \<open>The groups after each has been sorted by descending percent change and cut to 10.\<close>

definition customStrategyResults :: "stock list \<Rightarrow> string + groups" where
  "customStrategyResults mappedData =
     (case collect_matches [] mappedData of
        Inl message \<Rightarrow> Inl message
      | Inr collected \<Rightarrow>
          Inr (map (\<lambda>(n, (ty, stocks)).
                      (n, (ty, slice (sort_descending (\<lambda>s. num_or (change s) 0) stocks) 0 10)))
                 collected))"

text \<open>
  What \<open>io.emit\<close> sends, one constructor per event name. \<open>scanStatus\<close> carries the message
  and the step. The timestamp of \<open>customStrategiesUpdate\<close> is left out.
\<close>

datatype event =
    scanStatus string string
  | pythonHealthUpdate bool
  | stockUpdate "stock list"
  | topRecommendationsUpdate "stock list" "stock list"
  | customStrategiesUpdate "(string \<times> string \<times> stock list) list"
  | fastVolumeAccumulatorsUpdate "scored_stock list"
  | fetchError string

text \<open>What a cycle asks of its collaborators, in order.\<close>

datatype action =
    DbDistinctSymbols
  | DbAllStrategies
  | QuoteCall "symbol list"
  | HistoricalStage "step list"
  | AnalysisStage "step list"

text \<open>The collaborators of one cycle: what each of them answers in that cycle.\<close>

record env =
  db_watchlist_symbols :: "string + symbol list"
  db_strategies :: "string + strategy list"
  yahoo_quote :: "symbol list \<Rightarrow> quote_result promise"
  yahoo_historical :: "symbol \<Rightarrow> nat \<Rightarrow> attempt"
  breaker_fire :: "payload \<Rightarrow> breaker_error + analysis_result option"

text \<open>The \<open>catch\<close> block of \<open>fetchAndEmitStockUpdates\<close>.\<close>

definition scan_failed :: "string \<Rightarrow> event list" where
  "scan_failed message =
     [scanStatus (''Scan failed: '' @ message) ''error'',
      fetchError ''Unified scan failed. The data provider might be temporarily unavailable.'']"

text \<open>
  \<open>fetchAndEmitStockUpdates\<close>: the events emitted and the actions taken by one cycle, given
  the configuration, the collaborators and the value of \<open>isPythonServiceHealthy\<close> when the
  cycle starts. An exception thrown while the strategy groups are built reaches the
  \<open>catch\<close> block before anything is emitted.
\<close>

definition fetchAndEmitStockUpdates ::
  "symbol list \<Rightarrow> symbol set \<Rightarrow> env \<Rightarrow> bool \<Rightarrow> event list \<times> action list" where
  "fetchAndEmitStockUpdates defaults fno e isPythonServiceHealthy =
     (if \<not> isPythonServiceHealthy then
        ([scanStatus ''Scan paused: Analysis service is offline.'' ''error''], [])
      else
        (let symbolsToFetch = getCombinedTrackedSymbols defaults (db_watchlist_symbols e)
         in if length symbolsToFetch = 0 then ([], [DbDistinctSymbols])
            else
              (case db_strategies e of
                 Inl message \<Rightarrow> (scan_failed message, [DbDistinctSymbols, DbAllStrategies])
               | Inr strategies \<Rightarrow>
                   (case fetchQuotes (yahoo_quote e) symbolsToFetch of
                      Inl message \<Rightarrow>
                        (scan_failed message,
                         [DbDistinctSymbols, DbAllStrategies, QuoteCall symbolsToFetch])
                    | Inr quotesMap \<Rightarrow>
                        (case fetchAllHistoricalData (yahoo_historical e) symbolsToFetch of
                           (historicalSteps, historicalDataMap) \<Rightarrow>
                             (case analyzeAllStocks (breaker_fire e) symbolsToFetch quotesMap
                                     historicalDataMap strategies of
                                (analysisSteps, mappedData) \<Rightarrow>
                                  (case customStrategyResults mappedData of
                                     Inl message \<Rightarrow>
                                       (scan_failed message,
                                        [DbDistinctSymbols, DbAllStrategies,
                                         QuoteCall symbolsToFetch,
                                         HistoricalStage historicalSteps,
                                         AnalysisStage analysisSteps])
                                   | Inr groups \<Rightarrow>
                                       ([stockUpdate mappedData,
                                         topRecommendationsUpdate (topBuys mappedData)
                                           (topSells mappedData),
                                         customStrategiesUpdate groups,
                                         fastVolumeAccumulatorsUpdate
                                           (getFastVolumeAccumulators mappedData fno),
                                         scanStatus ''Scan complete. Broadcasting updates.'' ''done''],
                                        [DbDistinctSymbols, DbAllStrategies,
                                         QuoteCall symbolsToFetch,
                                         HistoricalStage historicalSteps,
                                         AnalysisStage analysisSteps]))))))))"

section \<open>The health flag\<close>

text \<open>
  \<open>checkPythonServiceHealth\<close>: the argument says whether the GET on the health URL came back
  within its 5 seconds. The result is the new flag and the events emitted.
\<close>

definition checkPythonServiceHealth :: "bool \<Rightarrow> bool \<Rightarrow> bool \<times> event list" where
  "checkPythonServiceHealth probe_ok isPythonServiceHealthy =
     (if probe_ok then
        (if \<not> isPythonServiceHealthy then (True, [pythonHealthUpdate True])
         else (isPythonServiceHealthy, []))
      else
        (if isPythonServiceHealthy then (False, [pythonHealthUpdate False])
         else (isPythonServiceHealthy, [])))"

text \<open>The three listeners registered on the breaker.\<close>

definition on_open :: "bool \<Rightarrow> bool \<times> event list" where
  "on_open isPythonServiceHealthy =
     (False,
      [pythonHealthUpdate False,
       scanStatus ''Analysis service is overloaded or down. Pausing analysis...'' ''error''])"

definition on_close :: "bool \<Rightarrow> bool \<times> event list" where
  "on_close isPythonServiceHealthy =
     (True,
      [pythonHealthUpdate True,
       scanStatus ''Analysis service has recovered. Resuming analysis.'' ''connecting''])"

definition on_halfOpen :: "bool \<Rightarrow> bool \<times> event list" where
  "on_halfOpen isPythonServiceHealthy = (isPythonServiceHealthy, [])"

text \<open>
  The process as a state machine over the flag. Its inputs are what the event loop
  delivers: a health probe with its outcome, an event of the breaker, a new socket
  connection, and a call of the scan entry point by one of its three triggers together
  with what the collaborators answer in that cycle.
\<close>

datatype trigger = TimerTick | WatchlistMutation | SubscriberConnected

datatype input =
    HealthProbe bool
  | BreakerOpen
  | BreakerClose
  | BreakerHalfOpen
  | Connection
  | Scan trigger env

text \<open>\<open>let isPythonServiceHealthy = false\<close>.\<close>

definition initial_isPythonServiceHealthy :: bool where
  "initial_isPythonServiceHealthy = False"

definition server_step ::
  "symbol list \<Rightarrow> symbol set \<Rightarrow> bool \<Rightarrow> input \<Rightarrow> bool \<times> event list \<times> action list" where
  "server_step defaults fno isPythonServiceHealthy inp =
     (case inp of
        HealthProbe ok \<Rightarrow>
          (case checkPythonServiceHealth ok isPythonServiceHealthy of (h, evs) \<Rightarrow> (h, evs, []))
      | BreakerOpen \<Rightarrow> (case on_open isPythonServiceHealthy of (h, evs) \<Rightarrow> (h, evs, []))
      | BreakerClose \<Rightarrow> (case on_close isPythonServiceHealthy of (h, evs) \<Rightarrow> (h, evs, []))
      | BreakerHalfOpen \<Rightarrow> (case on_halfOpen isPythonServiceHealthy of (h, evs) \<Rightarrow> (h, evs, []))
      | Connection \<Rightarrow> (isPythonServiceHealthy, [pythonHealthUpdate isPythonServiceHealthy], [])
      | Scan t e \<Rightarrow>
          (case fetchAndEmitStockUpdates defaults fno e isPythonServiceHealthy of
             (evs, acts) \<Rightarrow> (isPythonServiceHealthy, evs, acts)))"

text \<open>Running the process over a list of inputs: the flag at the end and the output of each input.\<close>

fun server_run ::
  "symbol list \<Rightarrow> symbol set \<Rightarrow> bool \<Rightarrow> input list \<Rightarrow> bool \<times> (event list \<times> action list) list" where
  "server_run defaults fno h [] = (h, [])"
| "server_run defaults fno h (inp # inps) =
     (case server_step defaults fno h inp of
        (h', out) \<Rightarrow> (case server_run defaults fno h' inps of (h'', outs) \<Rightarrow> (h'', out # outs)))"

section \<open>Properties of binary64 rounding\<close>

text \<open>
  The exponent search is correct, so a positive \<open>x\<close> in the normal range is rounded on the
  grid of spacing \<open>2^(e-52)\<close> of its binade to a nearest grid point.
\<close>

lemma pow2_powi: "pow2 k = 2 powi k"
  by (simp add: pow2_def power_int_def power_one_over inverse_eq_divide)

lemma pow2_pos: "0 < pow2 k"
  by (simp add: pow2_powi)

lemma pow2_add: "pow2 (i + j) = pow2 i * pow2 j"
  by (simp add: pow2_powi power_int_add)

lemma pow2_mono: "i \<le> j \<Longrightarrow> pow2 i \<le> pow2 j"
  by (simp add: pow2_powi power_int_increasing)

lemma pow2_strict_mono: "i < j \<Longrightarrow> pow2 i < pow2 j"
  by (simp add: pow2_powi power_int_strict_increasing)

lemma pow2_of_nat: "0 \<le> n \<Longrightarrow> of_int (2 ^ nat n) = pow2 n"
  by (simp add: pow2_def)

lemma pow2_unique:
  assumes "pow2 e \<le> x" "x < pow2 (e + 1)" "pow2 e' \<le> x" "x < pow2 (e' + 1)"
  shows "e = e'"
proof (rule ccontr)
  assume "e \<noteq> e'"
  then consider "e + 1 \<le> e'" | "e' + 1 \<le> e" by linarith
  then show False
  proof cases
    case 1
    then have "pow2 (e + 1) \<le> pow2 e'" by (rule pow2_mono)
    with assms show False by linarith
  next
    case 2
    then have "pow2 (e' + 1) \<le> pow2 e" by (rule pow2_mono)
    with assms show False by linarith
  qed
qed

lemma floor_log2_bounds:
  assumes "0 < x"
  shows "pow2 (floor_log2 x) \<le> x \<and> x < pow2 (floor_log2 x + 1)"
proof -
  obtain a b where q: "quotient_of x = (a, b)" by (cases "quotient_of x")
  have b: "0 < b" using q by (rule quotient_of_denom_pos)
  have x: "x = of_int a / of_int b" using q by (rule quotient_of_div)
  have a: "0 < a" using assms b unfolding x by (simp add: zero_less_divide_iff)
  let ?A = "bitlen a" and ?B = "bitlen b"
  have A1: "1 \<le> ?A" using a by (simp add: bitlen_alt_def)
  have B1: "1 \<le> ?B" using b by (simp add: bitlen_alt_def)
  have "(of_int (2 ^ nat (?A - 1)) :: rat) \<le> of_int a"
    using bitlen_bounds [OF a] by (simp only: of_int_le_iff)
  then have al: "pow2 (?A - 1) \<le> of_int a" using A1 by (simp add: pow2_def)
  have "(of_int a :: rat) < of_int (2 ^ nat ?A)"
    using bitlen_bounds [OF a] by (simp only: of_int_less_iff)
  then have au: "of_int a < pow2 ?A" using A1 by (simp add: pow2_def)
  have "(of_int (2 ^ nat (?B - 1)) :: rat) \<le> of_int b"
    using bitlen_bounds [OF b] by (simp only: of_int_le_iff)
  then have bl: "pow2 (?B - 1) \<le> of_int b" using B1 by (simp add: pow2_def)
  have "(of_int b :: rat) < of_int (2 ^ nat ?B)"
    using bitlen_bounds [OF b] by (simp only: of_int_less_iff)
  then have bu: "of_int b < pow2 ?B" using B1 by (simp add: pow2_def)
  let ?k = "?A - ?B"
  have bpos: "(0 :: rat) < of_int b" using b by simp
  have apos: "(0 :: rat) < of_int a" using a by simp
  have up: "x < pow2 (?k + 1)"
  proof -
    have "of_int a < pow2 (?k + 1) * pow2 (?B - 1)"
      using au by (simp add: pow2_add [symmetric])
    also have "\<dots> \<le> pow2 (?k + 1) * of_int b"
      using bl pow2_pos [of "?k + 1"] by (simp add: mult_left_mono)
    finally show ?thesis unfolding x using bpos by (simp add: pos_divide_less_eq)
  qed
  have lo: "pow2 (?k - 1) < x"
  proof -
    have "pow2 (?k - 1) * of_int b < pow2 (?k - 1) * pow2 ?B"
      using bu pow2_pos [of "?k - 1"] by (simp add: mult_strict_left_mono)
    also have "\<dots> = pow2 (?A - 1)" by (simp add: pow2_add [symmetric])
    also have "\<dots> \<le> of_int a" by (rule al)
    finally show ?thesis unfolding x using bpos by (simp add: pos_less_divide_eq)
  qed
  show ?thesis
  proof (cases "pow2 ?k \<le> x")
    case True
    then have "floor_log2 x = ?k" using q by (simp add: floor_log2_def)
    then show ?thesis using True up by simp
  next
    case False
    then have "floor_log2 x = ?k - 1" using q by (simp add: floor_log2_def)
    then show ?thesis using False lo by simp
  qed
qed

lemma floor_log2_eq:
  assumes "pow2 e \<le> x" "x < pow2 (e + 1)"
  shows "floor_log2 x = e"
proof -
  have "0 < x" using assms(1) pow2_pos [of e] by linarith
  from floor_log2_bounds [OF this] assms show ?thesis using pow2_unique by blast
qed

lemma round_binary64_normal:
  assumes "pow2 e \<le> x" "x < pow2 (e + 1)" "- 1022 \<le> e"
  shows "round_binary64 x
       = (let y = of_int (round_half_even (x / pow2 (e - 52))) * pow2 (e - 52)
          in if pow2 1024 \<le> y then PosInfinity else Finite y)"
proof -
  have pos: "0 < x" using assms(1) pow2_pos [of e] by linarith
  have "floor_log2 \<bar>x\<bar> = e" using floor_log2_eq [OF assms(1,2)] pos by simp
  then show ?thesis using pos assms(3) by (simp add: round_binary64_def Let_def max_def)
qed

lemma floor_rat_numeral: "\<lfloor>numeral a / numeral b :: rat\<rfloor> = numeral a div numeral b"
  using floor_divide_of_int_eq [of "numeral a" "numeral b", where ?'a = rat] by simp

lemma round_half_even_nearest: "\<bar>of_int (round_half_even r) - r\<bar> \<le> 1 / 2"
proof -
  have "of_int \<lfloor>r\<rfloor> \<le> r" "r < of_int \<lfloor>r\<rfloor> + 1" by linarith+
  then show ?thesis by (auto simp: round_half_even_def Let_def)
qed

section \<open>Properties of the chunked stages\<close>

text \<open>
  The specification's view of a chunked stage: the items are split into ordered chunks of
  \<open>chunkSize\<close>, the last one possibly shorter.
\<close>

function chunks_of :: "nat \<Rightarrow> 'a list \<Rightarrow> 'a list list" where
  "chunks_of chunkSize items =
     (if chunkSize = 0 \<or> items = [] then []
      else take chunkSize items # chunks_of chunkSize (drop chunkSize items))"
  by pat_completeness auto
termination
  by (relation "measure (\<lambda>(chunkSize, items). length items)") auto

declare chunks_of.simps [simp del]

text \<open>
  A schedule with a pause of 250 ms between consecutive batches and none after the last.
\<close>

fun with_pauses :: "step list \<Rightarrow> step list" where
  "with_pauses [] = []"
| "with_pauses [b] = [b]"
| "with_pauses (b # b' # bs) = b # Pause 250 # with_pauses (b' # bs)"

lemma chunks_of_Nil: "chunks_of n [] = []"
  by (simp add: chunks_of.simps)

lemma chunks_of_step:
  "0 < n \<Longrightarrow> xs \<noteq> [] \<Longrightarrow> chunks_of n xs = take n xs # chunks_of n (drop n xs)"
  by (subst chunks_of.simps) simp

lemma chunks_of_eq_Nil: "0 < n \<Longrightarrow> (chunks_of n xs = []) = (xs = [])"
  by (subst chunks_of.simps) simp

lemma concat_chunks_of: "0 < n \<Longrightarrow> concat (chunks_of n xs) = xs"
proof (induction n xs rule: chunks_of.induct)
  case (1 n xs)
  show ?case
  proof (cases "xs = []")
    case True
    then show ?thesis by (simp add: chunks_of_Nil)
  next
    case False
    with 1 show ?thesis by (simp add: chunks_of_step)
  qed
qed

lemma length_chunks_of: "0 < n \<Longrightarrow> length (chunks_of n xs) = (length xs + n - 1) div n"
proof (induction n xs rule: chunks_of.induct)
  case (1 n xs)
  show ?case
  proof (cases "xs = []")
    case True
    then show ?thesis using 1(2) by (simp add: chunks_of_Nil)
  next
    case False
    then have ih: "length (chunks_of n (drop n xs)) = (length xs - n + n - 1) div n"
      using 1 by simp
    have len: "0 < length xs" using False by simp
    show ?thesis
    proof (cases "length xs \<le> n")
      case True
      then have d: "drop n xs = []" by simp
      have "(length xs + n - 1) div n = 1"
      proof (rule div_nat_eqI)
        show "n * 1 \<le> length xs + n - 1" using len by linarith
        show "length xs + n - 1 < n * Suc 1" using True 1(2) by simp
      qed
      then show ?thesis using False 1(2) d by (simp add: chunks_of_step chunks_of_Nil)
    next
      case gt: False
      define m where "m = length xs - n + n - 1"
      have e: "length xs + n - 1 = m + n" unfolding m_def using gt 1(2) by linarith
      have "(m + n) div n = Suc (m div n)" using 1(2) by simp
      then have "(length xs + n - 1) div n = Suc (m div n)" unfolding e .
      moreover have "length (chunks_of n xs) = Suc (length (chunks_of n (drop n xs)))"
        using False 1(2) by (simp add: chunks_of_step)
      ultimately show ?thesis using ih unfolding m_def by simp
    qed
  qed
qed

lemma ceil25: "nat \<lceil>real N / 25\<rceil> = (N + 24) div 25"
proof -
  have "\<lceil>real N / 25\<rceil> = \<lceil>of_int (int N) / (of_int 25 :: real)\<rceil>" by simp
  also have "\<dots> = - (- int N div 25)" by (rule ceiling_divide_eq_div)
  also have "\<dots> = (int N + 24) div 25" by arith
  finally have "\<lceil>real N / 25\<rceil> = int ((N + 24) div 25)" by (simp add: zdiv_int)
  then show ?thesis by simp
qed


lemma with_pauses_Cons:
  "with_pauses (b # bs) = b # (if bs = [] then [] else Pause 250 # with_pauses bs)"
  by (cases bs) simp_all

lemma slice_take_drop: "slice xs i (i + c) = take c (drop i xs)"
  by (simp add: slice_def)

lemma chunks_of_drop:
  assumes "0 < c" "i < length xs"
  shows "chunks_of c (drop i xs) = take c (drop i xs) # chunks_of c (drop (i + c) xs)"
  using assms by (simp add: chunks_of_step add.commute)

lemma historicalChunks_unfold:
  assumes "i < length syms"
  shows "historicalChunks yh syms i
     = (Batch (take 25 (drop i syms)) (fst (historicalChunk yh (take 25 (drop i syms))))
          # (if i + 25 < length syms then [Pause 250] else [])
          @ fst (historicalChunks yh syms (i + 25)),
        snd (historicalChunk yh (take 25 (drop i syms))) @ snd (historicalChunks yh syms (i + 25)))"
  using assms
  by (simp add: historicalChunks.simps [of yh syms i] Let_def slice_take_drop split: prod.splits)

lemma analysisChunks_unfold:
  assumes "i < length syms"
  shows "analysisChunks fire qm hm strategies syms i
     = (Batch (take 10 (drop i syms)) (fst (analysisChunk fire qm hm strategies (take 10 (drop i syms))))
          # (if i + 10 < length syms then [Pause 250] else [])
          @ fst (analysisChunks fire qm hm strategies syms (i + 10)),
        snd (analysisChunk fire qm hm strategies (take 10 (drop i syms)))
          @ snd (analysisChunks fire qm hm strategies syms (i + 10)))"
  using assms
  by (simp add: analysisChunks.simps [of fire qm hm strategies syms i] Let_def slice_take_drop
        split: prod.splits)

lemma historicalChunks_eq:
  "historicalChunks yh syms i
     = (with_pauses (map (\<lambda>c. Batch c (fst (historicalChunk yh c))) (chunks_of 25 (drop i syms))),
        concat (map (\<lambda>c. snd (historicalChunk yh c)) (chunks_of 25 (drop i syms))))"
proof (induction yh syms i rule: historicalChunks.induct)
  case (1 yh syms i)
  show ?case
  proof (cases "i < length syms")
    case False
    then show ?thesis by (simp add: historicalChunks.simps [of yh syms i] chunks_of_Nil)
  next
    case True
    obtain calls res where hc: "(calls, res) = historicalChunk yh (slice syms i (i + 25))"
      by (metis surj_pair)
    note ih = 1 [OF True refl refl hc]
    have st: "chunks_of 25 (drop i syms)
        = take 25 (drop i syms) # chunks_of 25 (drop (i + 25) syms)"
      using chunks_of_drop [of 25 i syms] True by simp
    have e: "(chunks_of 25 (drop (i + 25) syms) = []) = (\<not> i + 25 < length syms)"
      by (auto simp: chunks_of_eq_Nil)
    show ?thesis
      unfolding historicalChunks_unfold [OF True] st ih
      by (simp add: with_pauses_Cons e chunks_of_Nil)
  qed
qed

lemma analysisChunks_eq:
  "analysisChunks fire qm hm strategies syms i
     = (with_pauses (map (\<lambda>c. Batch c (fst (analysisChunk fire qm hm strategies c)))
          (chunks_of 10 (drop i syms))),
        concat (map (\<lambda>c. snd (analysisChunk fire qm hm strategies c)) (chunks_of 10 (drop i syms))))"
proof (induction fire qm hm strategies syms i rule: analysisChunks.induct)
  case (1 fire qm hm strategies syms i)
  show ?case
  proof (cases "i < length syms")
    case False
    then show ?thesis
      by (simp add: analysisChunks.simps [of fire qm hm strategies syms i] chunks_of_Nil)
  next
    case True
    obtain calls res where hc: "(calls, res) = analysisChunk fire qm hm strategies (slice syms i (i + 10))"
      by (metis surj_pair)
    note ih = 1 [OF True refl refl hc]
    have st: "chunks_of 10 (drop i syms)
        = take 10 (drop i syms) # chunks_of 10 (drop (i + 10) syms)"
      using chunks_of_drop [of 10 i syms] True by simp
    have e: "(chunks_of 10 (drop (i + 10) syms) = []) = (\<not> i + 10 < length syms)"
      by (auto simp: chunks_of_eq_Nil)
    show ?thesis
      unfolding analysisChunks_unfold [OF True] st ih
      by (simp add: with_pauses_Cons e chunks_of_Nil)
  qed
qed


text \<open>A promise settles strictly before \<open>ms\<close> milliseconds have passed.\<close>

definition settles_within :: "nat \<Rightarrow> 'a promise \<Rightarrow> bool" where
  "settles_within ms p = (case p of Settles t r \<Rightarrow> t < ms | Never \<Rightarrow> False)"

text \<open>The value of a fulfilled promise.\<close>

definition fulfilled :: "'a promise \<Rightarrow> 'a option" where
  "fulfilled p = (case p of Settles t (Inr v) \<Rightarrow> Some v | _ \<Rightarrow> None)"

text \<open>
  Every callback of the chunk settles before the chunk's 20-second timeout; otherwise the
  timeout wins the race.
\<close>

definition chunk_in_time :: "(symbol \<Rightarrow> nat \<Rightarrow> attempt) \<Rightarrow> symbol list \<Rightarrow> bool" where
  "chunk_in_time yh chunk = list_all (\<lambda>s. settles_within 20000 (snd (fetchSymbolHistory yh s))) chunk"

text \<open>
  What the callback of one symbol yields by itself (\<open>undefined\<close> read as the empty array).
  It depends on the provider's answers for that symbol only.
\<close>

definition own_history :: "(symbol \<Rightarrow> nat \<Rightarrow> attempt) \<Rightarrow> symbol \<Rightarrow> bar list" where
  "own_history yh s =
     (case fulfilled (snd (fetchSymbolHistory yh s)) of Some (Some h) \<Rightarrow> h | _ \<Rightarrow> [])"

lemma historicalAttempts_snd:
  "snd (historicalAttempts h s n a el)
     = (if a \<le> n then
          (case h a of
             Resolves d v \<Rightarrow> Settles (el + d) (Inr v)
           | Hangs \<Rightarrow> Never
           | Rejects d err \<Rightarrow>
               snd (historicalAttempts h s n (a + 1) (el + d + (if a < n then 500 * a else 0))))
        else Settles el (Inr (Some [])))"
  by (subst historicalAttempts.simps) (simp split: attempt.splits prod.splits)

lemma historicalAttempts_fst:
  "fst (historicalAttempts h s n a el)
     = (if a \<le> n then
          (case h a of
             Resolves d v \<Rightarrow> [HistoricalCall s a]
           | Hangs \<Rightarrow> [HistoricalCall s a]
           | Rejects d err \<Rightarrow>
               HistoricalCall s a # (if a < n then [BackoffWait (500 * a)] else [])
                 @ fst (historicalAttempts h s n (a + 1) (el + d + (if a < n then 500 * a else 0))))
        else [])"
  by (subst historicalAttempts.simps) (simp split: attempt.splits prod.splits)

lemma historicalAttempts_not_rejected:
  "snd (historicalAttempts h s n a el) \<noteq> Settles t (Inl m)"
proof (induction h s n a el rule: historicalAttempts.induct)
  case (1 h s n a el)
  show ?case
  proof (cases "a \<le> n")
    case False
    then show ?thesis by (simp add: historicalAttempts_snd [of h s n a el])
  next
    case True
    show ?thesis
    proof (cases "h a")
      case (Resolves d v)
      then show ?thesis using True by (simp add: historicalAttempts_snd [of h s n a el])
    next
      case Hangs
      then show ?thesis using True by (simp add: historicalAttempts_snd [of h s n a el])
    next
      case (Rejects d err)
      show ?thesis
      proof (cases "a < n")
        case lt: True
        have "snd (historicalAttempts h s n a el)
            = snd (historicalAttempts h s n (a + 1) (el + d + 500 * a))"
          using True Rejects lt by (subst historicalAttempts_snd) simp
        with 1(1) [OF True Rejects lt] show ?thesis by simp
      next
        case ge: False
        have "snd (historicalAttempts h s n a el)
            = snd (historicalAttempts h s n (a + 1) (el + d))"
          using True Rejects ge by (subst historicalAttempts_snd) simp
        with 1(2) [OF True Rejects ge] show ?thesis by simp
      qed
    qed
  qed
qed

lemma fetchSymbolHistory_not_rejected: "snd (fetchSymbolHistory yh s) \<noteq> Settles t (Inl m)"
  by (simp add: fetchSymbolHistory_def historicalAttempts_not_rejected)

lemma Promise_all_no_rejection:
  assumes "\<forall>p \<in> set ps. \<forall>t m. p \<noteq> Settles t (Inl m)"
  shows "(\<exists>T vs. Promise_all ps = Settles T (Inr vs) \<and> map fulfilled ps = map Some vs
            \<and> (\<forall>ms. (T < ms) = (0 < ms \<and> list_all (settles_within ms) ps)))
         \<or> (Promise_all ps = Never \<and> \<not> list_all (settles_within ms0) ps)"
  using assms
proof (induction ps)
  case Nil
  then show ?case by simp
next
  case (Cons p ps)
  then have ih: "(\<exists>T vs. Promise_all ps = Settles T (Inr vs) \<and> map fulfilled ps = map Some vs
            \<and> (\<forall>ms. (T < ms) = (0 < ms \<and> list_all (settles_within ms) ps)))
         \<or> (Promise_all ps = Never \<and> \<not> list_all (settles_within ms0) ps)"
    by simp
  have nr: "\<forall>t m. p \<noteq> Settles t (Inl m)" using Cons.prems by simp
  show ?case
  proof (cases p)
    case Never
    from ih show ?thesis
      by (auto simp: Never settles_within_def)
  next
    case (Settles t r)
    then obtain v where r: "r = Inr v" using nr by (cases r) auto
    from ih show ?thesis
    proof
      assume "\<exists>T vs. Promise_all ps = Settles T (Inr vs) \<and> map fulfilled ps = map Some vs
            \<and> (\<forall>ms. (T < ms) = (0 < ms \<and> list_all (settles_within ms) ps))"
      then obtain T vs where a: "Promise_all ps = Settles T (Inr vs)" "map fulfilled ps = map Some vs"
        "\<forall>ms. (T < ms) = (0 < ms \<and> list_all (settles_within ms) ps)" by blast
      have "Promise_all (p # ps) = Settles (max t T) (Inr (v # vs))"
        by (simp add: Settles r a(1))
      moreover have "map fulfilled (p # ps) = map Some (v # vs)"
        by (simp add: Settles r a(2) fulfilled_def)
      moreover have "\<forall>ms. (max t T < ms) = (0 < ms \<and> list_all (settles_within ms) (p # ps))"
        using a(3) by (auto simp: Settles settles_within_def)
      ultimately show ?thesis by blast
    next
      assume "Promise_all ps = Never \<and> \<not> list_all (settles_within ms0) ps"
      then show ?thesis by (simp add: Settles r)
    qed
  qed
qed

lemma map_fulfilled_Some:
  assumes "map fulfilled ps = map Some vs"
  shows "vs = map (\<lambda>p. case fulfilled p of Some v \<Rightarrow> v | None \<Rightarrow> d) ps"
  using assms
proof (induction ps arbitrary: vs)
  case Nil
  then show ?case by simp
next
  case (Cons p ps)
  then show ?case by (cases vs) auto
qed

lemma historicalChunk_results:
  "snd (historicalChunk yh chunk)
     = map (\<lambda>s. if chunk_in_time yh chunk
                 then (case fulfilled (snd (fetchSymbolHistory yh s)) of Some v \<Rightarrow> v | None \<Rightarrow> Some [])
                 else Some []) chunk"
proof -
  let ?ps = "map snd (map (fetchSymbolHistory yh) chunk)"
  let ?msg = "''Yahoo Finance historical data API call timed out for chunk starting with ''
                       @ (case chunk of [] \<Rightarrow> ''undefined'' | c # _ \<Rightarrow> c)"
  have nr: "\<forall>p \<in> set ?ps. \<forall>t m. p \<noteq> Settles t (Inl m)"
    by (auto simp: fetchSymbolHistory_not_rejected)
  have it: "list_all (settles_within 20000) ?ps = chunk_in_time yh chunk"
    by (simp add: chunk_in_time_def list_all_iff)
  from Promise_all_no_rejection [OF nr, of 20000]
  show ?thesis
  proof
    assume "\<exists>T vs. Promise_all ?ps = Settles T (Inr vs) \<and> map fulfilled ?ps = map Some vs
            \<and> (\<forall>ms. (T < ms) = (0 < ms \<and> list_all (settles_within ms) ?ps))"
    then obtain T vs where a: "Promise_all ?ps = Settles T (Inr vs)" "map fulfilled ?ps = map Some vs"
        "\<forall>ms. (T < ms) = (0 < ms \<and> list_all (settles_within ms) ?ps)" by blast
    have t: "(T < 20000) = chunk_in_time yh chunk" using a(3) it by simp
    have vs: "vs = map (\<lambda>p. case fulfilled p of Some v \<Rightarrow> v | None \<Rightarrow> Some []) ?ps"
      by (rule map_fulfilled_Some [OF a(2)])
    show ?thesis
      using a(1) t vs
      by (simp add: historicalChunk_def Let_def promiseWithTimeout_def o_def map_replicate_const)
  next
    assume "Promise_all ?ps = Never \<and> \<not> list_all (settles_within 20000) ?ps"
    then show ?thesis
      using it
      by (simp add: historicalChunk_def Let_def promiseWithTimeout_def map_replicate_const)
  qed
qed


lemma zip_map_same: "zip xs (map f xs) = map (\<lambda>x. (x, f x)) xs"
  by (induction xs) simp_all

lemma zip_concat_chunks:
  "zip (concat cs) (concat (map (\<lambda>c. map (f c) c) cs))
     = concat (map (\<lambda>c. map (\<lambda>x. (x, f c x)) c) cs)"
  by (induction cs) (simp_all add: zip_map_same)

lemma mem_concat_chunks:
  assumes "c \<in> set cs" "x \<in> set c"
  shows "(x, f c x) \<in> set (concat (map (\<lambda>c. map (\<lambda>x. (x, f c x)) c) cs))"
  using assms by auto

lemma new_Map_distinct:
  assumes "distinct (map fst entries)" "(k, v) \<in> set entries"
  shows "new_Map entries k = Some v"
proof -
  have "distinct (map fst (rev entries))" using assms(1) by (simp add: rev_map [symmetric])
  moreover have "(k, v) \<in> set (rev entries)" using assms(2) by simp
  ultimately show ?thesis unfolding new_Map_def by (rule map_of_is_SomeI)
qed

lemma history_entries:
  assumes "length allData = length syms"
  shows "map (\<lambda>i. (syms ! i, history_at allData i)) [0 ..< length syms]
       = zip syms (map (\<lambda>v. case v of None \<Rightarrow> [] | Some h \<Rightarrow> h) allData)"
  using assms by (intro nth_equalityI) (simp_all add: history_at_def)

lemma fetchAllHistoricalData_snd:
  "snd (fetchAllHistoricalData yh syms)
     = new_Map (map (\<lambda>i. (syms ! i, history_at (snd (historicalChunks yh syms 0)) i))
                  [0 ..< length syms])"
  by (cases "historicalChunks yh syms 0") (simp add: fetchAllHistoricalData_def)

lemma fetchAllHistoricalData_fst:
  "fst (fetchAllHistoricalData yh syms) = fst (historicalChunks yh syms 0)"
  by (cases "historicalChunks yh syms 0") (simp add: fetchAllHistoricalData_def)

lemma fetchAllHistoricalData_entry:
  assumes "distinct syms" "chunk \<in> set (chunks_of 25 syms)" "s \<in> set chunk"
  shows "snd (fetchAllHistoricalData yh syms) s
       = Some (if chunk_in_time yh chunk then own_history yh s else [])"
proof -
  let ?g = "\<lambda>c s. if chunk_in_time yh c
                 then (case fulfilled (snd (fetchSymbolHistory yh s)) of Some v \<Rightarrow> v | None \<Rightarrow> Some [])
                 else Some []"
  let ?oe = "\<lambda>v :: bar list option. case v of None \<Rightarrow> [] | Some h \<Rightarrow> h"
  let ?cs = "chunks_of 25 syms"
  let ?all = "concat (map (\<lambda>c. map (?g c) c) ?cs)"
  have cc: "concat ?cs = syms" by (simp add: concat_chunks_of)
  have all: "snd (historicalChunks yh syms 0) = ?all"
    by (simp add: historicalChunks_eq historicalChunk_results)
  have "length ?all = length (concat ?cs)"
    by (simp add: length_concat o_def)
  then have len: "length ?all = length syms" using cc by simp
  have "zip syms (map ?oe ?all) = zip (concat ?cs) (concat (map (\<lambda>c. map (\<lambda>x. ?oe (?g c x)) c) ?cs))"
    using cc by (simp add: map_concat o_def)
  also have "\<dots> = concat (map (\<lambda>c. map (\<lambda>x. (x, ?oe (?g c x))) c) ?cs)"
    by (rule zip_concat_chunks)
  finally have z: "zip syms (map ?oe ?all) = concat (map (\<lambda>c. map (\<lambda>x. (x, ?oe (?g c x))) c) ?cs)" .
  let ?entries = "map (\<lambda>i. (syms ! i, history_at ?all i)) [0 ..< length syms]"
  have en: "?entries = zip syms (map ?oe ?all)" by (rule history_entries [OF len])
  have mem: "(s, ?oe (?g chunk s)) \<in> set ?entries"
    unfolding en z by (rule mem_concat_chunks [OF assms(2,3)])
  have "map fst ?entries = syms" unfolding en using len by simp
  then have d: "distinct (map fst ?entries)" using assms(1) by simp
  have "new_Map ?entries s = Some (?oe (?g chunk s))" by (rule new_Map_distinct [OF d mem])
  moreover have "snd (fetchAllHistoricalData yh syms) = new_Map ?entries"
    unfolding fetchAllHistoricalData_snd all ..
  moreover have "?oe (?g chunk s) = (if chunk_in_time yh chunk then own_history yh s else [])"
    by (simp add: own_history_def split: option.splits)
  ultimately show ?thesis by simp
qed


lemma fetchAllHistoricalData_member:
  assumes "distinct syms" "s \<in> set syms"
  shows "\<exists>chunk \<in> set (chunks_of 25 syms). s \<in> set chunk \<and>
           snd (fetchAllHistoricalData yh syms) s
             = Some (if chunk_in_time yh chunk then own_history yh s else [])"
proof -
  have "s \<in> set (concat (chunks_of 25 syms))" using assms(2) by (simp add: concat_chunks_of)
  then obtain chunk where c: "chunk \<in> set (chunks_of 25 syms)" "s \<in> set chunk" by auto
  from fetchAllHistoricalData_entry [OF assms(1) c] c show ?thesis by blast
qed

lemma concat_map_filter:
  "concat (map (List.map_filter f) cs) = List.map_filter f (concat cs)"
  by (induction cs) (simp_all add: List.map_filter_def)

lemma analysisChunk_results:
  "snd (analysisChunk fire qm hm strategies chunk)
     = List.map_filter (\<lambda>s. snd (analyzeSymbol fire qm hm strategies s)) chunk"
  by (simp add: analysisChunk_def Let_def List.map_filter_def filter_map o_def)

lemma analyzeAllStocks_results:
  "snd (analyzeAllStocks fire syms qm hm strategies)
     = List.map_filter (\<lambda>s. snd (analyzeSymbol fire qm hm strategies s)) syms"
proof -
  have "snd (analyzeAllStocks fire syms qm hm strategies)
      = concat (map (List.map_filter (\<lambda>s. snd (analyzeSymbol fire qm hm strategies s)))
          (chunks_of 10 syms))"
    by (simp add: analyzeAllStocks_def analysisChunks_eq analysisChunk_results)
  then show ?thesis by (simp add: concat_map_filter concat_chunks_of)
qed

lemma fetchSymbolHistory_first_try:
  assumes "yh s 1 = Resolves d v"
  shows "fetchSymbolHistory yh s = ([HistoricalCall s 1], Settles d (Inr v))"
  unfolding fetchSymbolHistory_def using assms
  by (simp add: prod_eq_iff historicalAttempts_fst historicalAttempts_snd numeral_2_eq_2)

lemma fetchSymbolHistory_hangs:
  assumes "yh s 1 = Hangs"
  shows "fetchSymbolHistory yh s = ([HistoricalCall s 1], Never)"
  unfolding fetchSymbolHistory_def using assms
  by (simp add: prod_eq_iff historicalAttempts_fst historicalAttempts_snd numeral_2_eq_2)

lemma fetchSymbolHistory_second_try:
  assumes "yh s 1 = Rejects d1 m" "yh s 2 = Resolves d2 v"
  shows "fetchSymbolHistory yh s
       = ([HistoricalCall s 1, BackoffWait 500, HistoricalCall s 2], Settles (d1 + 500 + d2) (Inr v))"
  unfolding fetchSymbolHistory_def using assms
  by (simp add: prod_eq_iff historicalAttempts_fst historicalAttempts_snd numeral_2_eq_2)

lemma fetchSymbolHistory_second_hangs:
  assumes "yh s 1 = Rejects d1 m" "yh s 2 = Hangs"
  shows "fetchSymbolHistory yh s
       = ([HistoricalCall s 1, BackoffWait 500, HistoricalCall s 2], Never)"
  unfolding fetchSymbolHistory_def using assms
  by (simp add: prod_eq_iff historicalAttempts_fst historicalAttempts_snd numeral_2_eq_2)

lemma fetchSymbolHistory_gives_up:
  assumes "yh s 1 = Rejects d1 m1" "yh s 2 = Rejects d2 m2"
  shows "fetchSymbolHistory yh s
       = ([HistoricalCall s 1, BackoffWait 500, HistoricalCall s 2],
          Settles (d1 + 500 + d2) (Inr (Some [])))"
  unfolding fetchSymbolHistory_def using assms
  by (simp add: prod_eq_iff historicalAttempts_fst historicalAttempts_snd numeral_2_eq_2)

lemma fetchSymbolHistory_calls:
  "fst (fetchSymbolHistory yh s) = [HistoricalCall s 1]
   \<or> fst (fetchSymbolHistory yh s) = [HistoricalCall s 1, BackoffWait 500, HistoricalCall s 2]"
proof (cases "yh s 1")
  case (Resolves d v)
  then show ?thesis by (simp add: fetchSymbolHistory_first_try)
next
  case Hangs
  then show ?thesis by (simp add: fetchSymbolHistory_hangs)
next
  case r1: (Rejects d1 m1)
  show ?thesis
  proof (cases "yh s 2")
    case (Resolves d v)
    then show ?thesis using r1 by (simp add: fetchSymbolHistory_second_try)
  next
    case Hangs
    then show ?thesis using r1 by (simp add: fetchSymbolHistory_second_hangs)
  next
    case (Rejects d2 m2)
    then show ?thesis using r1 by (simp add: fetchSymbolHistory_gives_up)
  qed
qed

lemma linear_backoff:
  assumes "\<forall>k. a \<le> k \<and> k \<le> n \<longrightarrow> (\<exists>d m. h k = Rejects d m)"
  shows "fst (historicalAttempts h s n a el)
       = concat (map (\<lambda>k. HistoricalCall s k # (if k < n then [BackoffWait (500 * k)] else []))
           [a ..< Suc n])"
  using assms
proof (induction h s n a el rule: historicalAttempts.induct)
  case (1 h s n a el)
  show ?case
  proof (cases "a \<le> n")
    case False
    then show ?thesis by (subst historicalAttempts_fst) simp
  next
    case True
    then obtain d m where r: "h a = Rejects d m" using 1(3) by blast
    have up: "[a ..< Suc n] = a # [a + 1 ..< Suc n]" using True by (simp add: upt_conv_Cons)
    have rest: "\<forall>k. a + 1 \<le> k \<and> k \<le> n \<longrightarrow> (\<exists>d m. h k = Rejects d m)" using 1(3) by simp
    show ?thesis
    proof (cases "a < n")
      case lt: True
      have "fst (historicalAttempts h s n a el)
          = HistoricalCall s a # BackoffWait (500 * a)
              # fst (historicalAttempts h s n (a + 1) (el + d + 500 * a))"
        using True r lt by (subst historicalAttempts_fst) simp
      with 1(1) [OF True r lt rest] show ?thesis unfolding up using lt by simp
    next
      case ge: False
      have "fst (historicalAttempts h s n a el)
          = HistoricalCall s a # fst (historicalAttempts h s n (a + 1) (el + d))"
        using True r ge by (subst historicalAttempts_fst) simp
      with 1(2) [OF True r ge rest] show ?thesis unfolding up using ge by simp
    qed
  qed
qed

lemma cycle_completes:
  assumes "isPythonServiceHealthy"
    and "getCombinedTrackedSymbols defaults (db_watchlist_symbols e) \<noteq> []"
    and "db_strategies e = Inr strategies"
    and "fetchQuotes (yahoo_quote e) (getCombinedTrackedSymbols defaults (db_watchlist_symbols e))
           = Inr quotesMap"
  shows "fetchAndEmitStockUpdates defaults fno e isPythonServiceHealthy
       = (let symbolsToFetch = getCombinedTrackedSymbols defaults (db_watchlist_symbols e);
              historicalDataMap = snd (fetchAllHistoricalData (yahoo_historical e) symbolsToFetch);
              mappedData = snd (analyzeAllStocks (breaker_fire e) symbolsToFetch quotesMap
                                  historicalDataMap strategies);
              actions =
                [DbDistinctSymbols, DbAllStrategies, QuoteCall symbolsToFetch,
                 HistoricalStage (fst (fetchAllHistoricalData (yahoo_historical e) symbolsToFetch)),
                 AnalysisStage (fst (analyzeAllStocks (breaker_fire e) symbolsToFetch quotesMap
                                       historicalDataMap strategies))]
          in case customStrategyResults mappedData of
               Inl message \<Rightarrow> (scan_failed message, actions)
             | Inr groups \<Rightarrow>
                 ([stockUpdate mappedData,
                   topRecommendationsUpdate (topBuys mappedData) (topSells mappedData),
                   customStrategiesUpdate groups,
                   fastVolumeAccumulatorsUpdate (getFastVolumeAccumulators mappedData fno),
                   scanStatus ''Scan complete. Broadcasting updates.'' ''done''],
                  actions))"
  using assms
  by (simp add: fetchAndEmitStockUpdates_def Let_def split: prod.splits sum.splits)

lemma add_match_no_collision:
  assumes "match_name m \<notin> set Object_prototype_names"
  shows "\<exists>results'. add_match stockData results m = Inr results'"
  using assms by (simp add: add_match_def split: option.splits prod.splits)

lemma add_matches_no_collision:
  assumes "\<forall>m \<in> set ms. match_name m \<notin> set Object_prototype_names"
  shows "\<exists>results'. add_matches stockData results ms = Inr results'"
  using assms
proof (induction ms arbitrary: results)
  case Nil
  show ?case by simp
next
  case (Cons m ms)
  then obtain r where r: "add_match stockData results m = Inr r"
    using add_match_no_collision [of m stockData results] by auto
  from Cons have "\<exists>results'. add_matches stockData r ms = Inr results'" by simp
  then show ?case using r by simp
qed

lemma collect_matches_no_collision:
  assumes "\<forall>s \<in> set mappedData. \<forall>m \<in> set (customStrategyMatches s).
             match_name m \<notin> set Object_prototype_names"
  shows "\<exists>results'. collect_matches results mappedData = Inr results'"
  using assms
proof (induction mappedData arbitrary: results)
  case Nil
  show ?case by simp
next
  case (Cons s rest)
  then obtain r where r: "add_matches s results (customStrategyMatches s) = Inr r"
    using add_matches_no_collision [of "customStrategyMatches s" s results] by auto
  from Cons have "\<exists>results'. collect_matches r rest = Inr results'" by simp
  then show ?case using r by simp
qed

lemma customStrategyResults_no_collision:
  assumes "\<forall>s \<in> set mappedData. \<forall>m \<in> set (customStrategyMatches s).
             match_name m \<notin> set Object_prototype_names"
  shows "\<exists>groups. customStrategyResults mappedData = Inr groups"
  using collect_matches_no_collision [OF assms, of "[]"]
  by (auto simp: customStrategyResults_def)


subsection \<open>Batches, pauses and isolation of items\<close>

fun is_batch :: "step \<Rightarrow> bool" where
  "is_batch (Batch chunk calls) = True"
| "is_batch (Pause ms) = False"

lemma batches_of_with_pauses:
  "list_all is_batch bs \<Longrightarrow> filter is_batch (with_pauses bs) = bs"
  by (induction bs rule: with_pauses.induct) simp_all

lemma ceiling_25: "nat \<lceil>real N / 25\<rceil> = (N + 25 - 1) div 25"
proof -
  have "\<lceil>real N / 25\<rceil> = \<lceil>of_int (int N) / (of_int 25 :: real)\<rceil>" by simp
  also have "\<dots> = - (- int N div 25)" by (rule ceiling_divide_eq_div)
  also have "\<dots> = (int N + 24) div 25" by arith
  finally have "\<lceil>real N / 25\<rceil> = int ((N + 24) div 25)" by (simp add: zdiv_int)
  then show ?thesis by simp
qed

lemma ceiling_10: "nat \<lceil>real N / 10\<rceil> = (N + 10 - 1) div 10"
proof -
  have "\<lceil>real N / 10\<rceil> = \<lceil>of_int (int N) / (of_int 10 :: real)\<rceil>" by simp
  also have "\<dots> = - (- int N div 10)" by (rule ceiling_divide_eq_div)
  also have "\<dots> = (int N + 9) div 10" by arith
  finally have "\<lceil>real N / 10\<rceil> = int ((N + 9) div 10)" by (simp add: zdiv_int)
  then show ?thesis by simp
qed

lemma own_history_local: "yh' s = yh s \<Longrightarrow> own_history yh' s = own_history yh s"
  by (simp add: own_history_def fetchSymbolHistory_def)

lemma own_history_gives_up:
  assumes "yh s 1 = Rejects d1 m1" "yh s 2 = Rejects d2 m2"
  shows "own_history yh s = []"
  using fetchSymbolHistory_gives_up [of yh s d1 m1 d2 m2] assms
  by (simp add: own_history_def fulfilled_def)

text \<open>
  Two providers for the symbols A and B. B is answered at the first attempt after 100 ms.
  Both attempts for A are rejected: after 100 ms each by the first provider, after 12
  seconds each by the second.
\<close>

definition example_bar :: bar where
  "example_bar =
     \<lparr>bar_date = ''2024-01-02'', bar_open = 100, bar_high = 110, bar_low = 95, bar_close = 105,
      bar_volume = 1000, bar_adjClose = 105\<rparr>"

definition quick_failure :: "symbol \<Rightarrow> nat \<Rightarrow> attempt" where
  "quick_failure s attempt =
     (if s = ''A'' then Rejects 100 ''Not Found'' else Resolves 100 (Some [example_bar]))"

definition slow_failure :: "symbol \<Rightarrow> nat \<Rightarrow> attempt" where
  "slow_failure s attempt =
     (if s = ''A'' then Rejects 12000 ''socket hang up'' else Resolves 100 (Some [example_bar]))"

lemma chunks_of_AB: "chunks_of 25 [''A'', ''B''] = [[''A'', ''B'']]"
  by (simp add: chunks_of_step chunks_of_Nil)

text \<open>
  Claim C6 says that the failure of one item does not prevent its siblings in the chunk from
  succeeding. With the slow provider the callback of A gives up after 24.5 seconds, the
  20-second timeout of the chunk wins, and B, whose own request succeeded after 100 ms, gets an
  empty series.
\<close>

theorem slow_failure_empties_sibling_counterexample:
  "snd (fetchSymbolHistory slow_failure ''A'') = Settles 24500 (Inr (Some []))
   \<and> snd (fetchSymbolHistory slow_failure ''B'') = Settles 100 (Inr (Some [example_bar]))
   \<and> snd (fetchAllHistoricalData slow_failure [''A'', ''B'']) ''B'' = Some []"
proof -
  have a: "fetchSymbolHistory slow_failure ''A''
      = ([HistoricalCall ''A'' 1, BackoffWait 500, HistoricalCall ''A'' 2],
         Settles (12000 + 500 + 12000) (Inr (Some [])))"
    by (rule fetchSymbolHistory_gives_up) (simp_all add: slow_failure_def)
  have b: "fetchSymbolHistory slow_failure ''B'' = ([HistoricalCall ''B'' 1], Settles 100 (Inr (Some [example_bar])))"
    by (rule fetchSymbolHistory_first_try) (simp add: slow_failure_def)
  have late: "\<not> chunk_in_time slow_failure [''A'', ''B'']"
    by (simp add: chunk_in_time_def settles_within_def a)
  have "snd (fetchAllHistoricalData slow_failure [''A'', ''B'']) ''B''
      = Some (if chunk_in_time slow_failure [''A'', ''B''] then own_history slow_failure ''B'' else [])"
    by (rule fetchAllHistoricalData_entry) (simp_all add: chunks_of_AB)
  then show ?thesis using a b late by simp
qed

text \<open>
  Claim C6, amended. For every list of N distinct symbols the historical stage is a schedule of
  the ordered chunks of 25 symbols, ceil(N/25) batches, and the analysis stage one of the
  ordered chunks of 10, ceil(N/10) batches, each with a pause of 250 ms between consecutive
  batches and none after the last. In the historical stage, if every callback of a chunk
  settles before the chunk's 20-second timeout, each symbol of the chunk is mapped to what
  its own callback yields, which depends on the provider's answers for that symbol only and
  is the empty series when both its attempts are rejected; if some callback of the chunk
  does not settle in time, every symbol of that chunk is mapped to the empty series. Other
  chunks are not affected. In the analysis stage, which has no timeout, the output is
  exactly the symbols whose own callback returns a stock, in order.
\<close>

theorem chunked_stages_isolate_items:
  assumes "distinct symbolsToFetch"
  shows "fst (fetchAllHistoricalData yh symbolsToFetch)
           = with_pauses (map (\<lambda>c. Batch c (fst (historicalChunk yh c))) (chunks_of 25 symbolsToFetch))
       \<and> length (filter is_batch (fst (fetchAllHistoricalData yh symbolsToFetch)))
           = nat \<lceil>real (length symbolsToFetch) / 25\<rceil>
       \<and> fst (analyzeAllStocks fire symbolsToFetch quotesMap historicalDataMap strategies)
           = with_pauses (map (\<lambda>c. Batch c (fst (analysisChunk fire quotesMap historicalDataMap strategies c)))
               (chunks_of 10 symbolsToFetch))
       \<and> length (filter is_batch (fst (analyzeAllStocks fire symbolsToFetch quotesMap historicalDataMap strategies)))
           = nat \<lceil>real (length symbolsToFetch) / 10\<rceil>
       \<and> (\<forall>chunk \<in> set (chunks_of 25 symbolsToFetch). \<forall>s \<in> set chunk.
             snd (fetchAllHistoricalData yh symbolsToFetch) s
               = Some (if chunk_in_time yh chunk then own_history yh s else []))
       \<and> (\<forall>s yh' d1 m1 d2 m2.
             (yh' s = yh s \<longrightarrow> own_history yh' s = own_history yh s)
             \<and> (yh s 1 = Rejects d1 m1 \<and> yh s 2 = Rejects d2 m2 \<longrightarrow> own_history yh s = []))
       \<and> snd (analyzeAllStocks fire symbolsToFetch quotesMap historicalDataMap strategies)
           = List.map_filter (\<lambda>s. snd (analyzeSymbol fire quotesMap historicalDataMap strategies s))
               symbolsToFetch"
proof -
  let ?hb = "map (\<lambda>c. Batch c (fst (historicalChunk yh c))) (chunks_of 25 symbolsToFetch)"
  let ?ab = "map (\<lambda>c. Batch c (fst (analysisChunk fire quotesMap historicalDataMap strategies c)))
               (chunks_of 10 symbolsToFetch)"
  have h1: "fst (fetchAllHistoricalData yh symbolsToFetch) = with_pauses ?hb"
    by (simp add: fetchAllHistoricalData_fst historicalChunks_eq)
  have "list_all is_batch ?hb" by (simp add: list_all_iff)
  then have "filter is_batch (with_pauses ?hb) = ?hb" by (rule batches_of_with_pauses)
  then have h2: "length (filter is_batch (fst (fetchAllHistoricalData yh symbolsToFetch)))
           = nat \<lceil>real (length symbolsToFetch) / 25\<rceil>"
    unfolding h1 by (simp add: length_chunks_of ceiling_25)
  have a1: "fst (analyzeAllStocks fire symbolsToFetch quotesMap historicalDataMap strategies)
      = with_pauses ?ab"
    by (simp add: analyzeAllStocks_def analysisChunks_eq)
  have "list_all is_batch ?ab" by (simp add: list_all_iff)
  then have "filter is_batch (with_pauses ?ab) = ?ab" by (rule batches_of_with_pauses)
  then have a2: "length (filter is_batch (fst (analyzeAllStocks fire symbolsToFetch quotesMap historicalDataMap strategies)))
           = nat \<lceil>real (length symbolsToFetch) / 10\<rceil>"
    unfolding a1 by (simp add: length_chunks_of ceiling_10)
  have h3: "\<forall>chunk \<in> set (chunks_of 25 symbolsToFetch). \<forall>s \<in> set chunk.
             snd (fetchAllHistoricalData yh symbolsToFetch) s
               = Some (if chunk_in_time yh chunk then own_history yh s else [])"
    using fetchAllHistoricalData_entry [OF assms] by blast
  have h4: "\<forall>s yh' d1 m1 d2 m2.
             (yh' s = yh s \<longrightarrow> own_history yh' s = own_history yh s)
             \<and> (yh s 1 = Rejects d1 m1 \<and> yh s 2 = Rejects d2 m2 \<longrightarrow> own_history yh s = [])"
    using own_history_local own_history_gives_up by blast
  have a3: "snd (analyzeAllStocks fire symbolsToFetch quotesMap historicalDataMap strategies)
           = List.map_filter (\<lambda>s. snd (analyzeSymbol fire quotesMap historicalDataMap strategies s))
               symbolsToFetch"
    by (rule analyzeAllStocks_results)
  show ?thesis using h1 h2 a1 a2 h3 h4 a3 by blast
qed

text \<open>With the quick provider, A is mapped to the empty series and B keeps its bar.\<close>

theorem chunked_stages_isolate_items_witness:
  "distinct [''A'', ''B'']
   \<and> snd (fetchAllHistoricalData quick_failure [''A'', ''B'']) ''A'' = Some []
   \<and> snd (fetchAllHistoricalData quick_failure [''A'', ''B'']) ''B'' = Some [example_bar]
   \<and> length (filter is_batch (fst (fetchAllHistoricalData quick_failure [''A'', ''B'']))) = 1"
proof -
  have d: "distinct [''A'', ''B'']" by simp
  note t = chunked_stages_isolate_items [OF d, of quick_failure "\<lambda>p. Inl EOPENBREAKER" Map.empty Map.empty "[]"]
  have a: "fetchSymbolHistory quick_failure ''A''
      = ([HistoricalCall ''A'' 1, BackoffWait 500, HistoricalCall ''A'' 2],
         Settles (100 + 500 + 100) (Inr (Some [])))"
    by (rule fetchSymbolHistory_gives_up) (simp_all add: quick_failure_def)
  have b: "fetchSymbolHistory quick_failure ''B'' = ([HistoricalCall ''B'' 1], Settles 100 (Inr (Some [example_bar])))"
    by (rule fetchSymbolHistory_first_try) (simp add: quick_failure_def)
  have intime: "chunk_in_time quick_failure [''A'', ''B'']"
    by (simp add: chunk_in_time_def settles_within_def a b)
  have oa: "own_history quick_failure ''A'' = []" by (simp add: own_history_def a fulfilled_def)
  have ob: "own_history quick_failure ''B'' = [example_bar]" by (simp add: own_history_def b fulfilled_def)
  have "\<forall>chunk \<in> set (chunks_of 25 [''A'', ''B'']). \<forall>s \<in> set chunk.
             snd (fetchAllHistoricalData quick_failure [''A'', ''B'']) s
               = Some (if chunk_in_time quick_failure chunk then own_history quick_failure s else [])"
    using t by blast
  then have e: "\<forall>s \<in> set [''A'', ''B'']. snd (fetchAllHistoricalData quick_failure [''A'', ''B'']) s
               = Some (if chunk_in_time quick_failure [''A'', ''B''] then own_history quick_failure s else [])"
    by (simp add: chunks_of_AB)
  have "length (filter is_batch (fst (fetchAllHistoricalData quick_failure [''A'', ''B''])))
      = nat \<lceil>real (length [''A'', ''B'']) / 25\<rceil>"
    using t by blast
  then have n: "length (filter is_batch (fst (fetchAllHistoricalData quick_failure [''A'', ''B'']))) = 1"
    by simp
  show ?thesis using d e n intime oa ob by simp
qed


subsection \<open>Retry with backoff\<close>

lemma historical_entry_gives_up:
  assumes "yh s 1 = Rejects d1 m1" "yh s 2 = Rejects d2 m2" "distinct syms" "s \<in> set syms"
  shows "snd (fetchAllHistoricalData yh syms) s = Some []"
proof -
  have "own_history yh s = []" using own_history_gives_up [of yh s d1 m1 d2 m2] assms(1,2) by simp
  then show ?thesis using fetchAllHistoricalData_member [OF assms(3,4), of yh] by auto
qed

lemma cycle_reaches_analysis:
  assumes "getCombinedTrackedSymbols defaults (db_watchlist_symbols e) \<noteq> []"
    and "db_strategies e = Inr strategies"
    and "fetchQuotes (yahoo_quote e) (getCombinedTrackedSymbols defaults (db_watchlist_symbols e))
           = Inr quotesMap"
  shows "snd (fetchAndEmitStockUpdates defaults fno e True)
       = [DbDistinctSymbols, DbAllStrategies,
          QuoteCall (getCombinedTrackedSymbols defaults (db_watchlist_symbols e)),
          HistoricalStage (fst (fetchAllHistoricalData (yahoo_historical e)
             (getCombinedTrackedSymbols defaults (db_watchlist_symbols e)))),
          AnalysisStage (fst (analyzeAllStocks (breaker_fire e)
             (getCombinedTrackedSymbols defaults (db_watchlist_symbols e)) quotesMap
             (snd (fetchAllHistoricalData (yahoo_historical e)
                (getCombinedTrackedSymbols defaults (db_watchlist_symbols e)))) strategies))]"
  using cycle_completes [of True defaults e strategies quotesMap fno] assms
  by (simp add: Let_def split: sum.splits)

lemma cycle_ends_done:
  assumes "getCombinedTrackedSymbols defaults (db_watchlist_symbols e) \<noteq> []"
    and "db_strategies e = Inr strategies"
    and "fetchQuotes (yahoo_quote e) (getCombinedTrackedSymbols defaults (db_watchlist_symbols e))
           = Inr quotesMap"
    and "\<forall>s \<in> set (snd (analyzeAllStocks (breaker_fire e)
             (getCombinedTrackedSymbols defaults (db_watchlist_symbols e)) quotesMap
             (snd (fetchAllHistoricalData (yahoo_historical e)
                (getCombinedTrackedSymbols defaults (db_watchlist_symbols e)))) strategies)).
           \<forall>m \<in> set (customStrategyMatches s). match_name m \<notin> set Object_prototype_names"
  shows "last (fst (fetchAndEmitStockUpdates defaults fno e True))
       = scanStatus ''Scan complete. Broadcasting updates.'' ''done''"
proof -
  from customStrategyResults_no_collision [OF assms(4)] obtain groups where
    "customStrategyResults (snd (analyzeAllStocks (breaker_fire e)
             (getCombinedTrackedSymbols defaults (db_watchlist_symbols e)) quotesMap
             (snd (fetchAllHistoricalData (yahoo_historical e)
                (getCombinedTrackedSymbols defaults (db_watchlist_symbols e)))) strategies))
       = Inr groups" by blast
  then show ?thesis
    using cycle_completes [of True defaults e strategies quotesMap fno] assms(1,2,3)
    by (simp add: Let_def)
qed

text \<open>A provider whose first attempt is rejected after 300 ms and whose second succeeds after 200 ms.\<close>

definition flaky_once :: "symbol \<Rightarrow> nat \<Rightarrow> attempt" where
  "flaky_once s attempt =
     (if attempt = 1 then Rejects 300 ''ETIMEDOUT'' else Resolves 200 (Some [example_bar]))"

text \<open>
  Claim C7. The per-symbol historical fetch makes one attempt, or two attempts with one
  wait of 500 * 1 ms between them, and no more. If the first attempt is rejected and the
  second succeeds, the callback yields the result of the second attempt after exactly one
  retry and one wait. If the second attempt is rejected too, the callback is fulfilled with
  the empty series, and the symbol is mapped to the empty series by the stage; the
  callback is never rejected. In the retry loop with any number of attempts, the wait
  after a failed attempt k that is not the last is 500 * k ms. Whatever the historical
  provider answers, a cycle that got its strategies and quotes goes on: it runs the
  analysis stage on the history map of the historical stage, and it ends with the
  \<open>done\<close> status unless building the strategy groups throws, which happens only for
  a match named like a property of \<open>Object.prototype\<close>.
\<close>

theorem historical_fetch_retries_with_backoff:
  "(fst (fetchSymbolHistory yh s) = [HistoricalCall s 1]
      \<or> fst (fetchSymbolHistory yh s) = [HistoricalCall s 1, BackoffWait (500 * 1), HistoricalCall s 2])
   \<and> (\<forall>d1 m d2 v. yh s 1 = Rejects d1 m \<and> yh s 2 = Resolves d2 v \<longrightarrow>
         fetchSymbolHistory yh s
           = ([HistoricalCall s 1, BackoffWait (500 * 1), HistoricalCall s 2],
              Settles (d1 + 500 * 1 + d2) (Inr v)))
   \<and> (\<forall>d1 m1 d2 m2. yh s 1 = Rejects d1 m1 \<and> yh s 2 = Rejects d2 m2 \<longrightarrow>
         fetchSymbolHistory yh s
           = ([HistoricalCall s 1, BackoffWait (500 * 1), HistoricalCall s 2],
              Settles (d1 + 500 * 1 + d2) (Inr (Some [])))
         \<and> (\<forall>syms. distinct syms \<and> s \<in> set syms \<longrightarrow>
               snd (fetchAllHistoricalData yh syms) s = Some []))
   \<and> (\<forall>t m. snd (fetchSymbolHistory yh s) \<noteq> Settles t (Inl m))
   \<and> (\<forall>h n a el. (\<forall>k. a \<le> k \<and> k \<le> n \<longrightarrow> (\<exists>d m. h k = Rejects d m)) \<longrightarrow>
         fst (historicalAttempts h s n a el)
           = concat (map (\<lambda>k. HistoricalCall s k # (if k < n then [BackoffWait (500 * k)] else []))
               [a ..< Suc n]))
   \<and> (\<forall>defaults fno e strategies quotesMap.
         getCombinedTrackedSymbols defaults (db_watchlist_symbols e) \<noteq> []
         \<and> db_strategies e = Inr strategies
         \<and> fetchQuotes (yahoo_quote e) (getCombinedTrackedSymbols defaults (db_watchlist_symbols e))
             = Inr quotesMap \<longrightarrow>
         snd (fetchAndEmitStockUpdates defaults fno e True)
           = [DbDistinctSymbols, DbAllStrategies,
              QuoteCall (getCombinedTrackedSymbols defaults (db_watchlist_symbols e)),
              HistoricalStage (fst (fetchAllHistoricalData (yahoo_historical e)
                 (getCombinedTrackedSymbols defaults (db_watchlist_symbols e)))),
              AnalysisStage (fst (analyzeAllStocks (breaker_fire e)
                 (getCombinedTrackedSymbols defaults (db_watchlist_symbols e)) quotesMap
                 (snd (fetchAllHistoricalData (yahoo_historical e)
                    (getCombinedTrackedSymbols defaults (db_watchlist_symbols e)))) strategies))]
         \<and> ((\<forall>s \<in> set (snd (analyzeAllStocks (breaker_fire e)
                 (getCombinedTrackedSymbols defaults (db_watchlist_symbols e)) quotesMap
                 (snd (fetchAllHistoricalData (yahoo_historical e)
                    (getCombinedTrackedSymbols defaults (db_watchlist_symbols e)))) strategies)).
               \<forall>m \<in> set (customStrategyMatches s). match_name m \<notin> set Object_prototype_names)
              \<longrightarrow> last (fst (fetchAndEmitStockUpdates defaults fno e True))
                    = scanStatus ''Scan complete. Broadcasting updates.'' ''done''))"
proof -
  have A: "fst (fetchSymbolHistory yh s) = [HistoricalCall s 1]
      \<or> fst (fetchSymbolHistory yh s) = [HistoricalCall s 1, BackoffWait (500 * 1), HistoricalCall s 2]"
    using fetchSymbolHistory_calls [of yh s] by simp
  have B: "\<forall>d1 m d2 v. yh s 1 = Rejects d1 m \<and> yh s 2 = Resolves d2 v \<longrightarrow>
         fetchSymbolHistory yh s
           = ([HistoricalCall s 1, BackoffWait (500 * 1), HistoricalCall s 2],
              Settles (d1 + 500 * 1 + d2) (Inr v))"
    using fetchSymbolHistory_second_try [of yh s] by simp
  have C: "\<forall>d1 m1 d2 m2. yh s 1 = Rejects d1 m1 \<and> yh s 2 = Rejects d2 m2 \<longrightarrow>
         fetchSymbolHistory yh s
           = ([HistoricalCall s 1, BackoffWait (500 * 1), HistoricalCall s 2],
              Settles (d1 + 500 * 1 + d2) (Inr (Some [])))
         \<and> (\<forall>syms. distinct syms \<and> s \<in> set syms \<longrightarrow>
               snd (fetchAllHistoricalData yh syms) s = Some [])"
    using fetchSymbolHistory_gives_up [of yh s] historical_entry_gives_up [of yh s] by simp
  have D: "\<forall>t m. snd (fetchSymbolHistory yh s) \<noteq> Settles t (Inl m)"
    by (simp add: fetchSymbolHistory_not_rejected)
  have E: "\<forall>h n a el. (\<forall>k. a \<le> k \<and> k \<le> n \<longrightarrow> (\<exists>d m. h k = Rejects d m)) \<longrightarrow>
         fst (historicalAttempts h s n a el)
           = concat (map (\<lambda>k. HistoricalCall s k # (if k < n then [BackoffWait (500 * k)] else []))
               [a ..< Suc n])"
    using linear_backoff by blast
  have F: "\<forall>defaults fno e strategies quotesMap.
         getCombinedTrackedSymbols defaults (db_watchlist_symbols e) \<noteq> []
         \<and> db_strategies e = Inr strategies
         \<and> fetchQuotes (yahoo_quote e) (getCombinedTrackedSymbols defaults (db_watchlist_symbols e))
             = Inr quotesMap \<longrightarrow>
         snd (fetchAndEmitStockUpdates defaults fno e True)
           = [DbDistinctSymbols, DbAllStrategies,
              QuoteCall (getCombinedTrackedSymbols defaults (db_watchlist_symbols e)),
              HistoricalStage (fst (fetchAllHistoricalData (yahoo_historical e)
                 (getCombinedTrackedSymbols defaults (db_watchlist_symbols e)))),
              AnalysisStage (fst (analyzeAllStocks (breaker_fire e)
                 (getCombinedTrackedSymbols defaults (db_watchlist_symbols e)) quotesMap
                 (snd (fetchAllHistoricalData (yahoo_historical e)
                    (getCombinedTrackedSymbols defaults (db_watchlist_symbols e)))) strategies))]
         \<and> ((\<forall>s \<in> set (snd (analyzeAllStocks (breaker_fire e)
                 (getCombinedTrackedSymbols defaults (db_watchlist_symbols e)) quotesMap
                 (snd (fetchAllHistoricalData (yahoo_historical e)
                    (getCombinedTrackedSymbols defaults (db_watchlist_symbols e)))) strategies)).
               \<forall>m \<in> set (customStrategyMatches s). match_name m \<notin> set Object_prototype_names)
              \<longrightarrow> last (fst (fetchAndEmitStockUpdates defaults fno e True))
                    = scanStatus ''Scan complete. Broadcasting updates.'' ''done'')"
    using cycle_reaches_analysis cycle_ends_done by blast
  from A B C D E F show ?thesis by (intro conjI)
qed

text \<open>One failure, one wait of 500 ms, one retry: the bars arrive after 1000 ms.\<close>

theorem historical_fetch_retries_with_backoff_witness:
  "flaky_once ''A'' 1 = Rejects 300 ''ETIMEDOUT''
   \<and> flaky_once ''A'' 2 = Resolves 200 (Some [example_bar])
   \<and> fetchSymbolHistory flaky_once ''A''
       = ([HistoricalCall ''A'' 1, BackoffWait 500, HistoricalCall ''A'' 2],
          Settles 1000 (Inr (Some [example_bar])))"
proof -
  have a: "flaky_once ''A'' 1 = Rejects 300 ''ETIMEDOUT''"
    "flaky_once ''A'' 2 = Resolves 200 (Some [example_bar])"
    by (simp_all add: flaky_once_def)
  have "fetchSymbolHistory flaky_once ''A''
       = ([HistoricalCall ''A'' 1, BackoffWait (500 * 1), HistoricalCall ''A'' 2],
          Settles (300 + 500 * 1 + 200) (Inr (Some [example_bar])))"
    using historical_fetch_retries_with_backoff [of flaky_once "''A''", THEN conjunct2, THEN conjunct1,
        rule_format, of 300 "''ETIMEDOUT''" 200 "Some [example_bar]"] a
    by simp
  then show ?thesis using a by simp
qed



section \<open>Properties of the scan cycle\<close>

text \<open>A cycle in which nothing answers: an empty watchlist, no strategies, a quote call
  that never settles, historical calls that hang, an open breaker.\<close>

definition offline_env :: env where
  "offline_env =
     \<lparr>db_watchlist_symbols = Inr [], db_strategies = Inr [],
      yahoo_quote = (\<lambda>symbols. Never), yahoo_historical = (\<lambda>symb attempt. Hangs),
      breaker_fire = (\<lambda>payload. Inl EOPENBREAKER)\<rparr>"

text \<open>The events that carry stocks.\<close>

fun carries_stock_data :: "event \<Rightarrow> bool" where
  "carries_stock_data (stockUpdate stocks) = True"
| "carries_stock_data (topRecommendationsUpdate buys sells) = True"
| "carries_stock_data (customStrategiesUpdate groups) = True"
| "carries_stock_data (fastVolumeAccumulatorsUpdate ranked) = True"
| "carries_stock_data ev = False"

subsection \<open>The gate\<close>

text \<open>
  Claim C2. Whenever the scan entry point is called while \<open>isPythonServiceHealthy\<close> is
  false, the cycle stops at the gate: the only event emitted is one \<open>scanStatus\<close> saying
  that the scan is paused because the analysis service is offline, and nothing else happens: no
  database query, no quote call, no historical call, no analysis call, no stock broadcast.
\<close>

theorem gate_closed_cycle_is_skipped:
  assumes "\<not> isPythonServiceHealthy"
  shows "fetchAndEmitStockUpdates defaults fno e isPythonServiceHealthy
           = ([scanStatus ''Scan paused: Analysis service is offline.'' ''error''], [])"
  using assms by (simp add: fetchAndEmitStockUpdates_def)

text \<open>The flag as it is at process start, with the configured symbols.\<close>

theorem gate_closed_cycle_is_skipped_witness:
  "\<not> initial_isPythonServiceHealthy \<and>
   fetchAndEmitStockUpdates defaultSymbols fnoSymbols offline_env initial_isPythonServiceHealthy
     = ([scanStatus ''Scan paused: Analysis service is offline.'' ''error''], [])"
proof -
  have h: "\<not> initial_isPythonServiceHealthy" by (simp add: initial_isPythonServiceHealthy_def)
  from gate_closed_cycle_is_skipped [OF h] h show ?thesis by simp
qed

subsection \<open>Failure of the quote stage\<close>

lemma fetchQuotes_fails:
  assumes "(\<exists>t m. yq symbols = Settles t (Inl m)) \<or> (\<exists>t r. yq symbols = Settles t r \<and> 20000 \<le> t)
           \<or> yq symbols = Never"
  shows "\<exists>m. fetchQuotes yq symbols = Inl m"
  using assms by (auto simp: fetchQuotes_def promiseWithTimeout_def)

lemma fetchQuotes_timeout:
  assumes "(\<exists>t r. yq symbols = Settles t r \<and> 20000 \<le> t) \<or> yq symbols = Never"
  shows "fetchQuotes yq symbols = Inl ''Yahoo Finance quote API call timed out''"
  using assms by (auto simp: fetchQuotes_def promiseWithTimeout_def)

text \<open>
  Claim C3. In a cycle that passes the gate, has a non-empty universe and has read the
  strategies, if the bulk quote call is rejected, or is still pending when its 20 seconds
  are over, the cycle aborts: it emits exactly one \<open>scanStatus\<close> with step \<open>error\<close> and
  one \<open>fetchError\<close>, no event carrying stocks, and it makes no historical or analysis
  call.
\<close>

theorem quote_failure_aborts_cycle:
  assumes "isPythonServiceHealthy"
    and "symbolsToFetch = getCombinedTrackedSymbols defaults (db_watchlist_symbols e)"
    and "symbolsToFetch \<noteq> []"
    and "db_strategies e = Inr strategies"
    and "(\<exists>t m. yahoo_quote e symbolsToFetch = Settles t (Inl m))
         \<or> (\<exists>t r. yahoo_quote e symbolsToFetch = Settles t r \<and> 20000 \<le> t)
         \<or> yahoo_quote e symbolsToFetch = Never"
  shows "(\<exists>m. fst (fetchAndEmitStockUpdates defaults fno e isPythonServiceHealthy)
            = [scanStatus (''Scan failed: '' @ m) ''error'',
               fetchError ''Unified scan failed. The data provider might be temporarily unavailable.''])
         \<and> list_all (\<lambda>ev. \<not> carries_stock_data ev)
              (fst (fetchAndEmitStockUpdates defaults fno e isPythonServiceHealthy))
         \<and> snd (fetchAndEmitStockUpdates defaults fno e isPythonServiceHealthy)
             = [DbDistinctSymbols, DbAllStrategies, QuoteCall symbolsToFetch]"
proof -
  obtain m where m: "fetchQuotes (yahoo_quote e) symbolsToFetch = Inl m"
    using fetchQuotes_fails [of "yahoo_quote e" symbolsToFetch] assms(5) by blast
  have "fetchAndEmitStockUpdates defaults fno e isPythonServiceHealthy
      = (scan_failed m, [DbDistinctSymbols, DbAllStrategies, QuoteCall symbolsToFetch])"
    using assms(1,3,4) m assms(2) [symmetric]
    by (simp add: fetchAndEmitStockUpdates_def Let_def)
  then show ?thesis by (simp add: scan_failed_def)
qed


lemma universe_defaults: "getCombinedTrackedSymbols defaultSymbols (Inr []) = [''^NSEI'', ''RELIANCE.NS'']"
  by (simp add: getCombinedTrackedSymbols_def new_Set_def Set_add_def defaultSymbols_def)

text \<open>The configured symbols and a quote call that never settles.\<close>

theorem quote_failure_aborts_cycle_witness:
  "fetchAndEmitStockUpdates defaultSymbols fnoSymbols offline_env True
     = ([scanStatus ''Scan failed: Yahoo Finance quote API call timed out'' ''error'',
         fetchError ''Unified scan failed. The data provider might be temporarily unavailable.''],
        [DbDistinctSymbols, DbAllStrategies, QuoteCall [''^NSEI'', ''RELIANCE.NS'']])"
proof -
  have u: "[''^NSEI'', ''RELIANCE.NS''] = getCombinedTrackedSymbols defaultSymbols (db_watchlist_symbols offline_env)"
    by (simp add: universe_defaults offline_env_def)
  have q: "(\<exists>t m. yahoo_quote offline_env [''^NSEI'', ''RELIANCE.NS''] = Settles t (Inl m))
         \<or> (\<exists>t r. yahoo_quote offline_env [''^NSEI'', ''RELIANCE.NS''] = Settles t r \<and> 20000 \<le> t)
         \<or> yahoo_quote offline_env [''^NSEI'', ''RELIANCE.NS''] = Never"
    by (simp add: offline_env_def)
  have s: "db_strategies offline_env = Inr []" by (simp add: offline_env_def)
  from quote_failure_aborts_cycle [of True "[''^NSEI'', ''RELIANCE.NS'']" defaultSymbols offline_env "[]" fnoSymbols, OF _ u _ s q]
  obtain m where m: "fst (fetchAndEmitStockUpdates defaultSymbols fnoSymbols offline_env True)
            = [scanStatus (''Scan failed: '' @ m) ''error'',
               fetchError ''Unified scan failed. The data provider might be temporarily unavailable.'']"
    and a: "snd (fetchAndEmitStockUpdates defaultSymbols fnoSymbols offline_env True)
             = [DbDistinctSymbols, DbAllStrategies, QuoteCall [''^NSEI'', ''RELIANCE.NS'']]"
    by auto
  have "fetchQuotes (yahoo_quote offline_env) [''^NSEI'', ''RELIANCE.NS'']
      = Inl ''Yahoo Finance quote API call timed out''"
    by (simp add: fetchQuotes_def promiseWithTimeout_def offline_env_def)
  then have "fst (fetchAndEmitStockUpdates defaultSymbols fnoSymbols offline_env True)
      = scan_failed ''Yahoo Finance quote API call timed out''"
    using u [symmetric] s by (simp add: fetchAndEmitStockUpdates_def Let_def)
  then show ?thesis using a by (simp add: scan_failed_def prod_eq_iff)
qed

subsection \<open>The empty universe\<close>

lemma Set_add_nonempty: "s \<noteq> [] \<Longrightarrow> Set_add s x \<noteq> []"
  by (simp add: Set_add_def)

lemma foldl_Set_add_set: "set (foldl Set_add s xs) = set s \<union> set xs"
  by (induction xs arbitrary: s) (auto simp: Set_add_def)

lemma foldl_Set_add_distinct: "distinct s \<Longrightarrow> distinct (foldl Set_add s xs)"
  by (induction xs arbitrary: s) (auto simp: Set_add_def)

lemma universe_set:
  "set (getCombinedTrackedSymbols defaults (Inr rows)) = set defaults \<union> set rows"
  "set (getCombinedTrackedSymbols defaults (Inl err)) = set defaults"
  by (simp_all add: getCombinedTrackedSymbols_def new_Set_def foldl_Set_add_set)

lemma universe_distinct: "distinct (getCombinedTrackedSymbols defaults db)"
  by (cases db) (simp_all add: getCombinedTrackedSymbols_def new_Set_def foldl_Set_add_distinct)

text \<open>
  Claim C4 says that a cycle with an empty universe reports a status event. With no default
  symbol and an empty watchlist the cycle emits no event at all.
\<close>

theorem empty_universe_status_counterexample:
  "getCombinedTrackedSymbols [] (db_watchlist_symbols offline_env) = []
   \<and> fst (fetchAndEmitStockUpdates [] fnoSymbols offline_env True) = []"
  by (simp add: fetchAndEmitStockUpdates_def getCombinedTrackedSymbols_def new_Set_def
        offline_env_def)

text \<open>
  Claim C4, amended. In a cycle that passes the gate and whose universe is empty, the
  cycle ends right after the universe is resolved: no event is emitted (the skip is only
  written to the log), so no stock is broadcast, and no strategy, quote, historical or
  analysis call is made.
\<close>

theorem empty_universe_cycle_is_silent:
  assumes "isPythonServiceHealthy"
    and "getCombinedTrackedSymbols defaults (db_watchlist_symbols e) = []"
  shows "fetchAndEmitStockUpdates defaults fno e isPythonServiceHealthy = ([], [DbDistinctSymbols])"
  using assms by (simp add: fetchAndEmitStockUpdates_def)

theorem empty_universe_cycle_is_silent_witness:
  "getCombinedTrackedSymbols [] (db_watchlist_symbols offline_env) = []
   \<and> fetchAndEmitStockUpdates [] {} offline_env True = ([], [DbDistinctSymbols])"
proof -
  have u: "getCombinedTrackedSymbols [] (db_watchlist_symbols offline_env) = []"
    by (simp add: getCombinedTrackedSymbols_def new_Set_def offline_env_def)
  from empty_universe_cycle_is_silent [of True "[]" offline_env "{}", OF _ u] u
  show ?thesis by simp
qed

section \<open>Properties of the health flag\<close>

lemma server_step_stays_offline:
  assumes "inp \<noteq> HealthProbe True" "inp \<noteq> BreakerClose"
  shows "fst (server_step defaults fno False inp) = False"
  using assms
  by (cases inp)
     (auto simp: server_step_def checkPythonServiceHealth_def on_open_def on_halfOpen_def
        fetchAndEmitStockUpdates_def)

lemma server_step_scan_offline:
  "snd (server_step defaults fno False (Scan t e))
     = ([scanStatus ''Scan paused: Analysis service is offline.'' ''error''], [])"
  by (simp add: server_step_def fetchAndEmitStockUpdates_def)

lemma server_run_stays_offline:
  assumes "\<forall>i \<in> set inps. i \<noteq> HealthProbe True \<and> i \<noteq> BreakerClose"
  shows "fst (server_run defaults fno False inps) = False
       \<and> length (snd (server_run defaults fno False inps)) = length inps
       \<and> (\<forall>k t e. k < length inps \<and> inps ! k = Scan t e \<longrightarrow>
            snd (server_run defaults fno False inps) ! k
              = ([scanStatus ''Scan paused: Analysis service is offline.'' ''error''], []))"
  using assms
proof (induction inps)
  case Nil
  then show ?case by simp
next
  case (Cons inp inps)
  have ok: "inp \<noteq> HealthProbe True" "inp \<noteq> BreakerClose" using Cons.prems by auto
  obtain out where st: "server_step defaults fno False inp = (False, out)"
    using server_step_stays_offline [OF ok, of defaults fno]
    by (cases "server_step defaults fno False inp") auto
  obtain outs where rn: "server_run defaults fno False inps = (False, outs)"
    using Cons by (cases "server_run defaults fno False inps") auto
  have ih: "length outs = length inps"
    "\<And>k t e. k < length inps \<Longrightarrow> inps ! k = Scan t e \<Longrightarrow>
        outs ! k = ([scanStatus ''Scan paused: Analysis service is offline.'' ''error''], [])"
    using Cons rn by auto
  have hd: "\<And>t e. inp = Scan t e \<Longrightarrow>
     out = ([scanStatus ''Scan paused: Analysis service is offline.'' ''error''], [])"
    using st server_step_scan_offline [of defaults fno] by (metis snd_conv)
  show ?case using st rn ih hd by (auto simp: nth_Cons split: nat.splits)
qed

text \<open>
  Claim C10. The flag is false at process start. As long as no health probe has succeeded
  and the breaker has not closed, the flag stays false and every call of the scan entry
  point, whatever triggered it, is skipped at the gate: it emits the paused status and
  makes no call. From false, the flag becomes true only by a successful health probe or by
  a close event of the breaker.
\<close>

theorem scans_skipped_until_service_is_healthy:
  "initial_isPythonServiceHealthy = False
   \<and> (\<forall>inps. (\<forall>i \<in> set inps. i \<noteq> HealthProbe True \<and> i \<noteq> BreakerClose) \<longrightarrow>
        fst (server_run defaults fno initial_isPythonServiceHealthy inps) = False
        \<and> (\<forall>k t e. k < length inps \<and> inps ! k = Scan t e \<longrightarrow>
             snd (server_run defaults fno initial_isPythonServiceHealthy inps) ! k
               = ([scanStatus ''Scan paused: Analysis service is offline.'' ''error''], [])))
   \<and> (\<forall>inp. fst (server_step defaults fno False inp) \<longrightarrow> inp = HealthProbe True \<or> inp = BreakerClose)"
proof -
  have "\<forall>inp. fst (server_step defaults fno False inp) \<longrightarrow> inp = HealthProbe True \<or> inp = BreakerClose"
    using server_step_stays_offline [of _ defaults fno] by blast
  then show ?thesis
    using server_run_stays_offline [of _ defaults fno]
    by (simp add: initial_isPythonServiceHealthy_def)
qed

text \<open>Three scans, a failed probe and a connection before any successful probe.\<close>

theorem scans_skipped_until_service_is_healthy_witness:
  "server_run defaultSymbols fnoSymbols initial_isPythonServiceHealthy
     [Scan TimerTick offline_env, HealthProbe False, Connection, Scan SubscriberConnected offline_env,
      Scan WatchlistMutation offline_env]
   = (False,
      [([scanStatus ''Scan paused: Analysis service is offline.'' ''error''], []),
       ([], []),
       ([pythonHealthUpdate False], []),
       ([scanStatus ''Scan paused: Analysis service is offline.'' ''error''], []),
       ([scanStatus ''Scan paused: Analysis service is offline.'' ''error''], [])])
   \<and> fst (server_step defaultSymbols fnoSymbols False (HealthProbe True))
   \<and> fst (server_step defaultSymbols fnoSymbols False BreakerClose)"
proof -
  let ?inps = "[Scan TimerTick offline_env, HealthProbe False, Connection,
      Scan SubscriberConnected offline_env, Scan WatchlistMutation offline_env]"
  have "\<forall>i \<in> set ?inps. i \<noteq> HealthProbe True \<and> i \<noteq> BreakerClose" by simp
  then have "fst (server_run defaultSymbols fnoSymbols initial_isPythonServiceHealthy ?inps) = False"
    using scans_skipped_until_service_is_healthy [of defaultSymbols fnoSymbols] by blast
  moreover have "snd (server_run defaultSymbols fnoSymbols initial_isPythonServiceHealthy ?inps)
     = [([scanStatus ''Scan paused: Analysis service is offline.'' ''error''], []),
       ([], []),
       ([pythonHealthUpdate False], []),
       ([scanStatus ''Scan paused: Analysis service is offline.'' ''error''], []),
       ([scanStatus ''Scan paused: Analysis service is offline.'' ''error''], [])]"
    by (simp add: initial_isPythonServiceHealthy_def server_step_def fetchAndEmitStockUpdates_def
          checkPythonServiceHealth_def)
  moreover have "fst (server_step defaultSymbols fnoSymbols False (HealthProbe True))"
    "fst (server_step defaultSymbols fnoSymbols False BreakerClose)"
    by (simp_all add: server_step_def checkPythonServiceHealth_def on_close_def)
  ultimately show ?thesis by (simp add: prod_eq_iff)
qed


section \<open>Properties of the top recommendations\<close>

text \<open>
  Two stocks labelled STRONG BUY: one with an RSI of 50, one with an RSI of 0, the most
  oversold value there is.
\<close>

definition steady_stock :: stock where
  "steady_stock =
     \<lparr>symbol = ''STEADY.NS'', name = Some ''Steady'', price = Some 100, change = Some 1,
      volume = Some 1000, fiftyTwoWeekLow = None, fiftyTwoWeekHigh = None,
      currency = Some ''INR'', rsi = Some 50,
      indicators = Some \<lparr>ind_rsi = Some 50, avgVolume20 = Some 900\<rparr>,
      signal = Some ''BUY'', recommendedSignal = Some ''STRONG BUY'', history = [],
      customStrategyMatches = []\<rparr>"

definition oversold_stock :: stock where
  "oversold_stock =
     \<lparr>symbol = ''FALLEN.NS'', name = Some ''Fallen'', price = Some 10, change = Some (- 4),
      volume = Some 5000, fiftyTwoWeekLow = None, fiftyTwoWeekHigh = None,
      currency = Some ''INR'', rsi = Some 0,
      indicators = Some \<lparr>ind_rsi = Some 0, avgVolume20 = Some 900\<rparr>,
      signal = Some ''BUY'', recommendedSignal = Some ''STRONG BUY'', history = [],
      customStrategyMatches = []\<rparr>"

text \<open>
  Claim C9 says that the top buys are sorted ascending by RSI. The comparator reads the RSI
  as \<open>a.rsi || 100\<close>, so an RSI of 0 counts as 100: the stock with RSI 0 is ranked after
  the stock with RSI 50, although it comes first in the input.
\<close>

theorem topBuys_zero_rsi_ranked_last:
  "rsi oversold_stock = Some 0 \<and> rsi steady_stock = Some 50
   \<and> recommendedSignal oversold_stock = Some ''STRONG BUY''
   \<and> recommendedSignal steady_stock = Some ''STRONG BUY''
   \<and> topBuys [oversold_stock, steady_stock] = [steady_stock, oversold_stock]"
  by (simp add: topBuys_def slice_def sort_ascending_def num_or_def oversold_stock_def
        steady_stock_def)



lemma insort_key_agree:
  assumes "f x = g x" "\<forall>y \<in> set xs. f y = g y"
  shows "insort_key f x xs = insort_key g x xs"
  using assms(2)
proof (induction xs)
  case Nil
  show ?case by simp
next
  case (Cons y ys)
  have fy: "f y = g y" using Cons.prems by (rule bspec) simp
  have "\<forall>y \<in> set ys. f y = g y" using Cons.prems by (meson list.set_intros(2))
  then have ih: "insort_key f x ys = insort_key g x ys" by (rule Cons.IH)
  show ?case by (simp only: insort_key.simps assms(1) fy ih)
qed

lemma sort_key_agree:
  assumes "\<forall>x \<in> set xs. f x = g x"
  shows "sort_key f xs = sort_key g xs"
  using assms
proof (induction xs)
  case Nil
  show ?case by simp
next
  case (Cons x xs)
  have fx: "f x = g x" using Cons.prems by (rule bspec) simp
  have rest: "\<forall>y \<in> set xs. f y = g y" using Cons.prems by (meson list.set_intros(2))
  then have ih: "sort_key f xs = sort_key g xs" by (rule Cons.IH)
  have "\<forall>y \<in> set (sort_key g xs). f y = g y" using rest by (simp only: set_sort)
  with fx have "insort_key f x (sort_key g xs) = insort_key g x (sort_key g xs)"
    using insort_key_agree [of f x g "sort_key g xs"] by blast
  then show ?case by (simp only: sort_key_simps ih)
qed

lemma num_or_zero: "num_or x 0 = (case x of None \<Rightarrow> 0 | Some r \<Rightarrow> r)"
  by (simp add: num_or_def split: option.splits)

lemma topBuys_when_rsi_nonzero:
  assumes "\<forall>s \<in> set mappedData. rsi s \<noteq> Some 0"
  shows "topBuys mappedData
       = take 5 (sort_key (\<lambda>s. case rsi s of None \<Rightarrow> 100 | Some r \<Rightarrow> r)
           (filter (\<lambda>s. recommendedSignal s = Some ''STRONG BUY'') mappedData))"
proof -
  have "\<forall>s \<in> set (filter (\<lambda>s. recommendedSignal s = Some ''STRONG BUY'') mappedData).
          num_or (rsi s) 100 = (case rsi s of None \<Rightarrow> 100 | Some r \<Rightarrow> r)"
    using assms by (auto simp: num_or_def split: option.splits)
  then have "sort_key (\<lambda>s. num_or (rsi s) 100) (filter (\<lambda>s. recommendedSignal s = Some ''STRONG BUY'') mappedData)
      = sort_key (\<lambda>s. case rsi s of None \<Rightarrow> 100 | Some r \<Rightarrow> r)
          (filter (\<lambda>s. recommendedSignal s = Some ''STRONG BUY'') mappedData)"
    using sort_key_agree [of "filter (\<lambda>s. recommendedSignal s = Some ''STRONG BUY'') mappedData"
        "\<lambda>s. num_or (rsi s) 100" "\<lambda>s. case rsi s of None \<Rightarrow> 100 | Some r \<Rightarrow> r"]
    by blast
  then show ?thesis by (simp add: topBuys_def slice_def sort_ascending_def)
qed

lemma topSells_descending:
  "topSells mappedData
     = take 5 (sort_key (\<lambda>s. - (case rsi s of None \<Rightarrow> 0 | Some r \<Rightarrow> r))
         (filter (\<lambda>s. recommendedSignal s = Some ''STRONG SELL'') mappedData))"
  by (simp add: topSells_def slice_def sort_descending_def num_or_zero)


section \<open>Properties of the fast-accumulator ranking\<close>

text \<open>
  The candidates of the ranking, in the words of the specification: the stocks of the
  configured subset whose score is positive, each paired with its score.
\<close>

definition accumulator_candidates :: "stock list \<Rightarrow> symbol set \<Rightarrow> scored_stock list" where
  "accumulator_candidates allStocks fno =
     map (\<lambda>s. \<lparr>base = s, score = momentum_score s\<rparr>)
       (filter (\<lambda>s. symbol s \<in> fno \<and> js_positive (momentum_score s)) allStocks)"

text \<open>
  The formula of the specification, \<open>0.7 * volumeRatio + 0.3 * percentChange\<close> with
  \<open>volumeRatio = volume / avgVolume20\<close>, evaluated in binary64: the quotient, the two
  products and the sum are each rounded.
\<close>

definition binary64_score :: "rat \<Rightarrow> rat \<Rightarrow> rat \<Rightarrow> js_number" where
  "binary64_score percentChange vol avgVol =
     js_add (js_multiply (round_binary64 (7 / 10)) (js_divide vol avgVol))
       (js_multiply (round_binary64 (3 / 10)) (Finite percentChange))"

text \<open>A stock has what the score needs: a positive percent change, a volume and an average, both non-zero.\<close>

definition scorable :: "stock \<Rightarrow> rat \<Rightarrow> rat \<Rightarrow> rat \<Rightarrow> bool" where
  "scorable s c v a =
     (change s = Some c \<and> 0 < c \<and> volume s = Some v \<and> v \<noteq> 0
      \<and> (\<exists>ind. indicators s = Some ind \<and> avgVolume20 ind = Some a) \<and> a \<noteq> 0)"

lemma round_binary64_cases:
  "round_binary64 x = PosInfinity \<or> round_binary64 x = NegInfinity \<or> (\<exists>y. round_binary64 x = Finite y)"
  by (simp add: round_binary64_def Let_def)

lemma js_multiply_commute: "js_multiply a b = js_multiply b a"
  by (cases a; cases b) (simp_all add: mult.commute)

lemma momentum_score_scorable:
  assumes "scorable s c v a"
  shows "momentum_score s = binary64_score c v a"
  using assms
  by (auto simp: scorable_def momentum_score_def binary64_score_def Let_def num_or_def falsy_def
        js_multiply_commute)

lemma momentum_score_not_scorable:
  assumes "\<forall>c v a. \<not> scorable s c v a"
  shows "momentum_score s = Finite (- 1)"
proof (cases "change s")
  case None
  then show ?thesis by (simp add: momentum_score_def num_or_def)
next
  case (Some c)
  show ?thesis
  proof (cases "0 < c")
    case False
    then show ?thesis using Some by (simp add: momentum_score_def num_or_def Let_def)
  next
    case True
    show ?thesis
    proof (cases "volume s")
      case None
      then show ?thesis by (simp add: momentum_score_def falsy_def Let_def)
    next
      case v: (Some v)
      show ?thesis
      proof (cases "case indicators s of None \<Rightarrow> None | Some ind \<Rightarrow> avgVolume20 ind")
        case None
        then show ?thesis by (simp add: momentum_score_def falsy_def Let_def)
      next
        case a: (Some a)
        then obtain ind where ind: "indicators s = Some ind" "avgVolume20 ind = Some a"
          by (cases "indicators s") auto
        have "v = 0 \<or> a = 0" using assms Some True v ind unfolding scorable_def by blast
        then show ?thesis using v a by (auto simp: momentum_score_def falsy_def Let_def)
      qed
    qed
  qed
qed

lemma momentum_score_positive:
  assumes "js_positive (momentum_score s)"
  shows "\<exists>c v a. scorable s c v a \<and> momentum_score s = binary64_score c v a"
proof (rule ccontr)
  assume "\<not> (\<exists>c v a. scorable s c v a \<and> momentum_score s = binary64_score c v a)"
  then have "\<forall>c v a. \<not> scorable s c v a" using momentum_score_scorable by blast
  then have "momentum_score s = Finite (- 1)" by (rule momentum_score_not_scorable)
  then show False using assms by simp
qed

lemma literal_0_7: "round_binary64 (7 / 10) = Finite (3152519739159347 / 4503599627370496)"
  by (subst round_binary64_normal [of "- 1"])
     (simp_all add: pow2_def round_half_even_def Let_def floor_rat_numeral)

lemma literal_0_3: "round_binary64 (3 / 10) = Finite (5404319552844595 / 18014398509481984)"
  by (subst round_binary64_normal [of "- 2"])
     (simp_all add: pow2_def round_half_even_def Let_def floor_rat_numeral)

lemma example_ratio: "js_divide 300 100 = Finite 3"
  unfolding js_divide_def
  by (subst round_binary64_normal [of 1])
     (simp_all add: pow2_def round_half_even_def Let_def floor_rat_numeral)

lemma example_volume_term:
  "js_multiply (Finite (3152519739159347 / 4503599627370496)) (Finite 3)
     = Finite (1182194902184755 / 562949953421312)"
  unfolding js_multiply.simps
  by (subst round_binary64_normal [of 1])
     (simp_all add: pow2_def round_half_even_def Let_def floor_rat_numeral)

lemma example_change_term:
  "js_multiply (Finite (5404319552844595 / 18014398509481984)) (Finite 5) = Finite (3 / 2)"
  unfolding js_multiply.simps
  by (subst round_binary64_normal [of 0])
     (simp_all add: pow2_def round_half_even_def Let_def floor_rat_numeral)

lemma example_sum:
  "js_add (Finite (1182194902184755 / 562949953421312)) (Finite (3 / 2))
     = Finite (2026619832316723 / 562949953421312)"
  unfolding js_add.simps
  by (subst round_binary64_normal [of 1])
     (simp_all add: pow2_def round_half_even_def Let_def floor_rat_numeral)

lemma example_score: "binary64_score 5 300 100 = Finite (2026619832316723 / 562949953421312)"
  by (simp only: binary64_score_def literal_0_7 literal_0_3 example_ratio example_volume_term
        example_change_term example_sum)


lemma candidates_eq:
  "filter (\<lambda>x. js_positive (score x))
     (map (\<lambda>s. \<lparr>base = s, score = momentum_score s\<rparr>) (filter (\<lambda>s. symbol s \<in> fno) allStocks))
   = accumulator_candidates allStocks fno"
  by (induction allStocks) (auto simp: accumulator_candidates_def)

lemma getFast_eq:
  "getFastVolumeAccumulators allStocks fno
     = take 5 (sort_key (\<lambda>x. descending_position (score x)) (accumulator_candidates allStocks fno))"
  by (simp add: getFastVolumeAccumulators_def Let_def slice_def sort_descending_number_def
        candidates_eq)

lemma take_sorted_top:
  assumes "sorted (map f xs)" "x \<in> set (take n xs)" "y \<in> set (drop n xs)"
  shows "f x \<le> f y"
proof -
  have "sorted (map f (take n xs) @ map f (drop n xs))"
    using assms(1) by (metis append_take_drop_id map_append)
  then show ?thesis using assms(2,3) by (auto simp: sorted_append)
qed

lemma mset_drop_diff: "mset xs - mset (take n xs) = mset (drop n xs)"
  by (metis add_diff_cancel_left' append_take_drop_id mset_append)

lemma descending_position_order:
  assumes "js_positive a" "js_positive b"
  shows "(descending_position a \<le> descending_position b) = js_less_eq b a"
  using assms by (cases a; cases b) (simp_all add: less_eq_prod_def)

lemma candidate_positive: "x \<in> set (accumulator_candidates allStocks fno) \<Longrightarrow> js_positive (score x)"
  by (auto simp: accumulator_candidates_def)

text \<open>The stock of the worked example: percent change 5, volume 300, 20-period average 100.\<close>

definition example_quote_stock :: stock where
  "example_quote_stock =
     \<lparr>symbol = ''RELIANCE.NS'', name = Some ''Reliance Industries'', price = Some 2500,
      change = Some 5, volume = Some 300, fiftyTwoWeekLow = None, fiftyTwoWeekHigh = None,
      currency = Some ''INR'', rsi = Some 25,
      indicators = Some \<lparr>ind_rsi = Some 25, avgVolume20 = Some 100\<rparr>,
      signal = Some ''BUY'', recommendedSignal = Some ''STRONG BUY'', history = [],
      customStrategyMatches = []\<rparr>"

lemma example_scorable: "scorable example_quote_stock 5 300 100"
  by (simp add: scorable_def example_quote_stock_def)

text \<open>
  Claim C8 says that the worked example scores 3.6. In binary64 the product of 0.7 and 3
  is 2.0999999999999996, and the score of the example is 3.5999999999999996, the
  rational below, which is less than 3.6.
\<close>

theorem example_score_below_3_6_counterexample:
  "change example_quote_stock = Some 5 \<and> volume example_quote_stock = Some 300
   \<and> momentum_score example_quote_stock = Finite (2026619832316723 / 562949953421312)
   \<and> (2026619832316723 / 562949953421312 :: rat) < 36 / 10"
  using momentum_score_scorable [OF example_scorable]
  by (simp add: example_score example_quote_stock_def)

text \<open>
  Claim C8, amended. For every list of analysed stocks, every stock of the fast-accumulator
  ranking is one of the given stocks and lies in the configured F&O subset; it has a
  strictly positive percent change, a non-zero volume and a non-zero 20-period average
  volume, and its score is positive. The score of every stock that has these three is
  0.7 * (volume / average) + 0.3 * percentChange evaluated in binary64 arithmetic, each
  operation rounded to nearest; a stock that lacks one of them scores -1 and is excluded.
  A stock with percentChange 5, volume 300 and average 100 scores 3.5999999999999996,
  less than 10^-15 away from 3.6. The ranking holds at most 5 entries, exactly 5 when
  there are that many candidates, in descending order of score, and no candidate left out
  scores higher than a ranked one.
\<close>

theorem fast_accumulators_ranking:
  "(\<forall>x \<in> set (getFastVolumeAccumulators allStocks fno).
      base x \<in> set allStocks \<and> symbol (base x) \<in> fno \<and> js_positive (score x) \<and>
      (\<exists>c v a. scorable (base x) c v a \<and> score x = binary64_score c v a))
   \<and> (\<forall>s c v a. scorable s c v a \<longrightarrow> momentum_score s = binary64_score c v a)
   \<and> (\<forall>s. (\<forall>c v a. \<not> scorable s c v a) \<longrightarrow> momentum_score s = Finite (- 1))
   \<and> binary64_score 5 300 100 = Finite (2026619832316723 / 562949953421312)
   \<and> \<bar>2026619832316723 / 562949953421312 - 36 / 10 :: rat\<bar> < 1 / 10 ^ 15
   \<and> length (getFastVolumeAccumulators allStocks fno)
         = min 5 (length (accumulator_candidates allStocks fno))
   \<and> sorted_wrt (\<lambda>x y. js_less_eq (score y) (score x)) (getFastVolumeAccumulators allStocks fno)
   \<and> mset (getFastVolumeAccumulators allStocks fno) \<subseteq># mset (accumulator_candidates allStocks fno)
   \<and> (\<forall>y \<in># mset (accumulator_candidates allStocks fno) - mset (getFastVolumeAccumulators allStocks fno).
        \<forall>x \<in> set (getFastVolumeAccumulators allStocks fno). js_less_eq (score y) (score x))"
proof -
  let ?c = "accumulator_candidates allStocks fno"
  let ?k = "\<lambda>x :: scored_stock. descending_position (score x)"
  let ?s = "sort_key ?k ?c"
  have r: "getFastVolumeAccumulators allStocks fno = take 5 ?s" by (rule getFast_eq)
  have srt: "sorted (map ?k ?s)" by (rule sorted_sort_key)
  have sub: "set (take 5 ?s) \<subseteq> set ?c" using set_take_subset [of 5 ?s] by simp
  have pos: "\<And>x. x \<in> set ?s \<Longrightarrow> js_positive (score x)"
    using candidate_positive [of _ allStocks fno] by simp
  have A: "\<forall>x \<in> set (take 5 ?s).
      base x \<in> set allStocks \<and> symbol (base x) \<in> fno \<and> js_positive (score x) \<and>
      (\<exists>c v a. scorable (base x) c v a \<and> score x = binary64_score c v a)"
  proof
    fix x assume "x \<in> set (take 5 ?s)"
    then have "x \<in> set ?c" using sub by blast
    then obtain s where s: "s \<in> set allStocks" "symbol s \<in> fno" "js_positive (momentum_score s)"
      "x = \<lparr>base = s, score = momentum_score s\<rparr>"
      by (auto simp: accumulator_candidates_def)
    from momentum_score_positive [OF s(3)] s
    show "base x \<in> set allStocks \<and> symbol (base x) \<in> fno \<and> js_positive (score x) \<and>
      (\<exists>c v a. scorable (base x) c v a \<and> score x = binary64_score c v a)"
      by auto
  qed
  have B: "\<forall>s c v a. scorable s c v a \<longrightarrow> momentum_score s = binary64_score c v a"
    using momentum_score_scorable by blast
  have B': "\<forall>s. (\<forall>c v a. \<not> scorable s c v a) \<longrightarrow> momentum_score s = Finite (- 1)"
    using momentum_score_not_scorable by blast
  have X: "binary64_score 5 300 100 = Finite (2026619832316723 / 562949953421312)"
    by (rule example_score)
  have Y: "\<bar>2026619832316723 / 562949953421312 - 36 / 10 :: rat\<bar> < 1 / 10 ^ 15" by simp
  have C: "length (take 5 ?s) = min 5 (length ?c)" by simp
  have D: "sorted_wrt (\<lambda>x y. js_less_eq (score y) (score x)) (take 5 ?s)"
  proof -
    have "sorted (map ?k (take 5 ?s))"
      using srt by (simp add: take_map [symmetric])
    then have "sorted_wrt (\<lambda>x y. ?k x \<le> ?k y) (take 5 ?s)" by (simp add: sorted_map)
    moreover have "\<And>x y. x \<in> set (take 5 ?s) \<Longrightarrow> y \<in> set (take 5 ?s) \<Longrightarrow>
        ?k x \<le> ?k y \<Longrightarrow> js_less_eq (score y) (score x)"
      using descending_position_order pos by (meson in_set_takeD)
    ultimately show ?thesis by (rule sorted_wrt_mono_rel [rotated])
  qed
  have E: "mset (take 5 ?s) \<subseteq># mset ?c"
  proof -
    have "mset (take 5 ?s) \<subseteq># mset ?s"
      by (metis append_take_drop_id mset_append mset_subset_eq_add_left)
    then show ?thesis by simp
  qed
  have F: "\<forall>y \<in># mset ?c - mset (take 5 ?s). \<forall>x \<in> set (take 5 ?s). js_less_eq (score y) (score x)"
  proof (intro ballI)
    fix y x assume y: "y \<in># mset ?c - mset (take 5 ?s)" and x: "x \<in> set (take 5 ?s)"
    have "mset ?c - mset (take 5 ?s) = mset (drop 5 ?s)"
      using mset_drop_diff [of ?s 5] by simp
    then have yd: "y \<in> set (drop 5 ?s)" using y by simp
    from take_sorted_top [OF srt x yd] have "?k x \<le> ?k y" .
    moreover have "js_positive (score x)" using pos x by (meson in_set_takeD)
    moreover have "js_positive (score y)" using pos yd by (meson in_set_dropD)
    ultimately show "js_less_eq (score y) (score x)" using descending_position_order by blast
  qed
  show ?thesis unfolding r using A B B' X Y C D E F by (intro conjI)
qed

text \<open>The worked example, as the only stock of a scan, is ranked with score 3.5999999999999996.\<close>

theorem fast_accumulators_ranking_witness:
  "getFastVolumeAccumulators [example_quote_stock] fnoSymbols
     = [\<lparr>base = example_quote_stock, score = Finite (2026619832316723 / 562949953421312)\<rparr>]
   \<and> example_quote_stock \<in> set [example_quote_stock]
   \<and> symbol example_quote_stock \<in> fnoSymbols
   \<and> change example_quote_stock = Some 5 \<and> volume example_quote_stock = Some 300"
proof -
  have ex: "change example_quote_stock = Some 5 \<and> volume example_quote_stock = Some 300"
    by (simp add: example_quote_stock_def)
  note t = fast_accumulators_ranking [of "[example_quote_stock]" fnoSymbols]
  have "momentum_score example_quote_stock = binary64_score 5 300 100"
    using t example_scorable by blast
  moreover have "binary64_score 5 300 100 = Finite (2026619832316723 / 562949953421312)"
    using t by blast
  ultimately have sc: "momentum_score example_quote_stock
      = Finite (2026619832316723 / 562949953421312)" by simp
  have sy: "symbol example_quote_stock \<in> fnoSymbols"
    by (simp add: example_quote_stock_def fnoSymbols_def)
  have "getFastVolumeAccumulators [example_quote_stock] fnoSymbols
     = [\<lparr>base = example_quote_stock, score = Finite (2026619832316723 / 562949953421312)\<rparr>]"
    using sc sy
    by (simp add: getFastVolumeAccumulators_def Let_def slice_def sort_descending_number_def)
  then show ?thesis using ex sy by simp
qed


section \<open>Properties of the analysed stocks\<close>














text \<open>
  The two features of the plain object: a match named like a property of
  \<open>Object.prototype\<close> makes the grouping throw, and a key that is an array index is listed
  before an earlier key that is not.
\<close>

lemma prototype_name_aborts_grouping:
  assumes "customStrategyMatches s = [\<lparr>match_name = ''constructor'', match_type = ty\<rparr>]"
  shows "customStrategyResults [s] = Inl ''Cannot read properties of undefined (reading 'push')''"
  using assms by (simp add: customStrategyResults_def add_match_def Object_prototype_names_def)

lemma array_index_key_first:
  "define_property [(''breakout'', g)] ''7'' g' = [(''7'', g'), (''breakout'', g)]"
  by (simp add: define_property_def array_index_def)

















end
